theory Spec2Isabelle
  imports Complex_Main "HOL-Library.Word"
begin

unbundle bit_operations_syntax

section \<open>Data model of the BME280 driver (bme280.h)\<close>

text \<open>
  Fixed-width C integers are words of the same width. A word carries no sign: a field
  of a signed C type is read with \<open>sint\<close> (two's complement), a field of an unsigned
  one with \<open>uint\<close>, wherever the source converts it. C's \<open>int\<close> is 32 bits wide on the
  driver's targets.
\<close>

type_synonym uint8_t = "8 word"
type_synonym int8_t = "8 word"
type_synonym uint16_t = "16 word"
type_synonym int16_t = "16 word"
type_synonym int32_t = "32 word"
type_synonym c_int = "32 word"

datatype bme280_error_t =
    BME280_OK
  | BME280_ERR_BUS_OPEN
  | BME280_ERR_ADDR_SET
  | BME280_ERR_WRITE
  | BME280_ERR_READ
  | BME280_ERR_NULL_PTR
  | BME280_ERR_NOT_INIT

record bme280_calib_temp_t =
  dig_T1 :: uint16_t
  dig_T2 :: int16_t
  dig_T3 :: int16_t

record bme280_calib_press_t =
  dig_P1 :: uint16_t
  dig_P2 :: int16_t
  dig_P3 :: int16_t
  dig_P4 :: int16_t
  dig_P5 :: int16_t
  dig_P6 :: int16_t
  dig_P7 :: int16_t
  dig_P8 :: int16_t
  dig_P9 :: int16_t

record bme280_calib_hum_t =
  dig_H1 :: uint8_t
  dig_H2 :: int16_t
  dig_H3 :: uint8_t
  dig_H4 :: int16_t
  dig_H5 :: int16_t
  dig_H6 :: int8_t

record bme280_calib_t =
  temp :: bme280_calib_temp_t
  press :: bme280_calib_press_t
  hum :: bme280_calib_hum_t

section \<open>Calibration parser (bme280\_read\_calibration, the decoding part)\<close>

text \<open>
  \<open>buf[i] | (buf[i+1] << 8)\<close>: both bytes are promoted to \<open>int\<close> before the shift
  and the bitwise or.
\<close>

definition le16 :: "uint8_t \<Rightarrow> uint8_t \<Rightarrow> c_int" where
  "le16 lo hi = ucast lo OR push_bit 8 (ucast hi)"

text \<open>
  The casts \<open>(uint16_t)\<close>, \<open>(int16_t)\<close> and \<open>(int8_t)\<close> keep the low bits of the
  \<open>int\<close> (that is \<open>ucast\<close> to the narrower word).
\<close>

definition parse_temp :: "uint8_t list \<Rightarrow> bme280_calib_temp_t" where
  "parse_temp buf =
     \<lparr> dig_T1 = ucast (le16 (buf ! 0) (buf ! 1)),
       dig_T2 = ucast (le16 (buf ! 2) (buf ! 3)),
       dig_T3 = ucast (le16 (buf ! 4) (buf ! 5)) \<rparr>"

definition parse_press :: "uint8_t list \<Rightarrow> bme280_calib_press_t" where
  "parse_press buf =
     \<lparr> dig_P1 = ucast (le16 (buf ! 6) (buf ! 7)),
       dig_P2 = ucast (le16 (buf ! 8) (buf ! 9)),
       dig_P3 = ucast (le16 (buf ! 10) (buf ! 11)),
       dig_P4 = ucast (le16 (buf ! 12) (buf ! 13)),
       dig_P5 = ucast (le16 (buf ! 14) (buf ! 15)),
       dig_P6 = ucast (le16 (buf ! 16) (buf ! 17)),
       dig_P7 = ucast (le16 (buf ! 18) (buf ! 19)),
       dig_P8 = ucast (le16 (buf ! 20) (buf ! 21)),
       dig_P9 = ucast (le16 (buf ! 22) (buf ! 23)) \<rparr>"

text \<open>
  The humidity group: \<open>h1\<close> is the byte read from register 0xA1, \<open>buf\<close> the seven
  bytes read from register 0xE1.
\<close>

definition parse_H4 :: "uint8_t list \<Rightarrow> int16_t" where
  "parse_H4 buf =
     ucast (push_bit 4 (ucast (buf ! 3) :: c_int) OR (ucast (buf ! 4) AND 0x0F))"

definition parse_H5 :: "uint8_t list \<Rightarrow> int16_t" where
  "parse_H5 buf =
     ucast ((drop_bit 4 (ucast (buf ! 4) :: c_int) AND 0x0F) OR push_bit 4 (ucast (buf ! 5)))"

definition parse_hum :: "uint8_t \<Rightarrow> uint8_t list \<Rightarrow> bme280_calib_hum_t" where
  "parse_hum h1 buf =
     \<lparr> dig_H1 = h1,
       dig_H2 = ucast (le16 (buf ! 0) (buf ! 1)),
       dig_H3 = buf ! 2,
       dig_H4 = parse_H4 buf,
       dig_H5 = parse_H5 buf,
       dig_H6 = ucast (buf ! 6) \<rparr>"

definition parse_calibration ::
  "uint8_t list \<Rightarrow> uint8_t list \<Rightarrow> uint8_t list \<Rightarrow> bme280_calib_t" where
  "parse_calibration tp h1 h2 =
     \<lparr> temp = parse_temp tp, press = parse_press tp, hum = parse_hum (h1 ! 0) h2 \<rparr>"

section \<open>The register layout of section 4.1, as an encoder\<close>

text \<open>
  The encoder follows the words of the specification (section 4.1), not the source:
  twelve little-endian 16-bit words, the byte of H1, and the seven bytes holding H2 to
  H6 with the two 12-bit coefficients H4 and H5 sharing byte 4.
\<close>

definition lo8 :: "'a::len word \<Rightarrow> uint8_t" where
  "lo8 w = ucast w"

definition hi8 :: "'a::len word \<Rightarrow> uint8_t" where
  "hi8 w = ucast (drop_bit 8 w)"

definition encode_temp_press :: "bme280_calib_t \<Rightarrow> uint8_t list" where
  "encode_temp_press c =
     [lo8 (dig_T1 (temp c)), hi8 (dig_T1 (temp c)),
      lo8 (dig_T2 (temp c)), hi8 (dig_T2 (temp c)),
      lo8 (dig_T3 (temp c)), hi8 (dig_T3 (temp c)),
      lo8 (dig_P1 (press c)), hi8 (dig_P1 (press c)),
      lo8 (dig_P2 (press c)), hi8 (dig_P2 (press c)),
      lo8 (dig_P3 (press c)), hi8 (dig_P3 (press c)),
      lo8 (dig_P4 (press c)), hi8 (dig_P4 (press c)),
      lo8 (dig_P5 (press c)), hi8 (dig_P5 (press c)),
      lo8 (dig_P6 (press c)), hi8 (dig_P6 (press c)),
      lo8 (dig_P7 (press c)), hi8 (dig_P7 (press c)),
      lo8 (dig_P8 (press c)), hi8 (dig_P8 (press c)),
      lo8 (dig_P9 (press c)), hi8 (dig_P9 (press c))]"

definition encode_hum1 :: "bme280_calib_t \<Rightarrow> uint8_t list" where
  "encode_hum1 c = [dig_H1 (hum c)]"

definition encode_hum2 :: "bme280_calib_t \<Rightarrow> uint8_t list" where
  "encode_hum2 c =
     [lo8 (dig_H2 (hum c)), hi8 (dig_H2 (hum c)),
      dig_H3 (hum c),
      ucast (drop_bit 4 (dig_H4 (hum c))),
      push_bit 4 (ucast (dig_H5 (hum c)) AND 0x0F) OR (ucast (dig_H4 (hum c)) AND 0x0F),
      ucast (drop_bit 4 (dig_H5 (hum c))),
      ucast (dig_H6 (hum c))]"

text \<open>A coefficient of the declared signed 12-bit width.\<close>

definition signed12 :: "int16_t \<Rightarrow> bool" where
  "signed12 w = (- 2048 \<le> sint w \<and> sint w < 2048)"

definition decode_encoded :: "bme280_calib_t \<Rightarrow> bme280_calib_t" where
  "decode_encoded c = parse_calibration (encode_temp_press c) (encode_hum1 c) (encode_hum2 c)"

definition zero_calib :: bme280_calib_t where
  "zero_calib =
     \<lparr> temp = \<lparr> dig_T1 = 0, dig_T2 = 0, dig_T3 = 0 \<rparr>,
       press = \<lparr> dig_P1 = 0, dig_P2 = 0, dig_P3 = 0, dig_P4 = 0, dig_P5 = 0,
                 dig_P6 = 0, dig_P7 = 0, dig_P8 = 0, dig_P9 = 0 \<rparr>,
       hum = \<lparr> dig_H1 = 0, dig_H2 = 0, dig_H3 = 0, dig_H4 = 0, dig_H5 = 0, dig_H6 = 0 \<rparr> \<rparr>"

section \<open>The operating system's side of the I2C bus\<close>

text \<open>
  The driver reaches the sensor through \<open>open\<close>, \<open>ioctl\<close>, \<open>write\<close>, \<open>read\<close> and
  \<open>close\<close>. Their outcome is decided outside the driver, so the world holds, besides
  the descriptors that are open, a script of the outcomes still to come: one entry is
  taken by each call. A call on a descriptor that is not open fails with \<open>-1\<close> and takes
  nothing; an exhausted script fails the same way.
\<close>

record world =
  open_fds :: "int list"
  open_script :: "bool list"
  ioctl_script :: "int list"
  write_script :: "int list"
  read_script :: "uint8_t list option list"
  written :: "uint8_t list list"

text \<open>A successful \<open>open\<close> returns the lowest descriptor that is not in use.\<close>

definition lowest_unused :: "int list \<Rightarrow> int" where
  "lowest_unused fds = hd (filter (\<lambda>n. n \<notin> set fds) (map int [0 ..< Suc (length fds)]))"

definition sys_open :: "world \<Rightarrow> string \<Rightarrow> int \<times> world" where
  "sys_open w path =
     (case open_script w of
        [] \<Rightarrow> (- 1, w)
      | ok # rest \<Rightarrow>
          if ok then
            (let n = lowest_unused (open_fds w)
             in (n, w\<lparr>open_fds := n # open_fds w, open_script := rest\<rparr>))
          else (- 1, w\<lparr>open_script := rest\<rparr>))"

definition I2C_SLAVE :: int where
  "I2C_SLAVE = 0x0703"

definition sys_ioctl :: "world \<Rightarrow> int \<Rightarrow> int \<Rightarrow> uint8_t \<Rightarrow> int \<times> world" where
  "sys_ioctl w d request arg =
     (if d \<notin> set (open_fds w) then (- 1, w)
      else case ioctl_script w of
             [] \<Rightarrow> (- 1, w)
           | r # rest \<Rightarrow> (r, w\<lparr>ioctl_script := rest\<rparr>))"

definition sys_write :: "world \<Rightarrow> int \<Rightarrow> uint8_t list \<Rightarrow> int \<times> world" where
  "sys_write w d bytes =
     (if d \<notin> set (open_fds w) then (- 1, w)
      else case write_script w of
             [] \<Rightarrow> (- 1, w)
           | r # rest \<Rightarrow> (r, w\<lparr>write_script := rest, written := written w @ [bytes]\<rparr>))"

text \<open>
  \<open>read(fd, buf, n)\<close> delivers at most \<open>n\<close> bytes and returns how many; the bytes
  returned here are the ones stored at the start of \<open>buf\<close>.
\<close>

definition sys_read :: "world \<Rightarrow> int \<Rightarrow> nat \<Rightarrow> int \<times> uint8_t list \<times> world" where
  "sys_read w d n =
     (if d \<notin> set (open_fds w) then (- 1, [], w)
      else case read_script w of
             [] \<Rightarrow> (- 1, [], w)
           | None # rest \<Rightarrow> (- 1, [], w\<lparr>read_script := rest\<rparr>)
           | Some bs # rest \<Rightarrow>
               (int (length (take n bs)), take n bs, w\<lparr>read_script := rest\<rparr>))"

definition sys_close :: "world \<Rightarrow> int \<Rightarrow> world" where
  "sys_close w d = w\<lparr>open_fds := removeAll d (open_fds w)\<rparr>"

section \<open>Driver context, initialisation and cleanup\<close>

record bme280_ctx_t =
  fd :: int
  address :: uint8_t
  calib :: bme280_calib_t
  t_fine :: int32_t

definition BME280_REG_CALIB_TEMP_PRESS :: uint8_t where
  "BME280_REG_CALIB_TEMP_PRESS = 0x88"

definition BME280_REG_CALIB_HUM1 :: uint8_t where
  "BME280_REG_CALIB_HUM1 = 0xA1"

definition BME280_REG_CALIB_HUM2 :: uint8_t where
  "BME280_REG_CALIB_HUM2 = 0xE1"

definition BME280_REG_CTRL_HUM :: uint8_t where
  "BME280_REG_CTRL_HUM = 0xF2"

definition BME280_REG_CTRL_MEAS :: uint8_t where
  "BME280_REG_CTRL_MEAS = 0xF4"

definition BME280_REG_CONFIG :: uint8_t where
  "BME280_REG_CONFIG = 0xF5"

definition BME280_REG_DATA :: uint8_t where
  "BME280_REG_DATA = 0xF7"

text \<open>
  A pointer argument is an option: \<open>None\<close> is the null pointer, \<open>Some\<close> the object it
  points to. Every function returns, with its result, the objects and the world as it
  leaves them.
\<close>

definition bme280_init ::
  "world \<Rightarrow> bme280_ctx_t option \<Rightarrow> string option \<Rightarrow> uint8_t
     \<Rightarrow> bme280_error_t \<times> bme280_ctx_t option \<times> world" where
  "bme280_init w ctx bus_path addr =
     (case ctx of
        None \<Rightarrow> (BME280_ERR_NULL_PTR, ctx, w)
      | Some c \<Rightarrow>
         (case bus_path of
            None \<Rightarrow> (BME280_ERR_NULL_PTR, ctx, w)
          | Some path \<Rightarrow>
             (let c1 = c\<lparr>fd := - 1, address := addr, t_fine := 0\<rparr>;
                  (r, w1) = sys_open w path;
                  c2 = c1\<lparr>fd := r\<rparr>
              in if fd c2 < 0 then (BME280_ERR_BUS_OPEN, Some c2, w1)
                 else
                   (let (i, w2) = sys_ioctl w1 (fd c2) I2C_SLAVE addr
                    in if i < 0
                       then (BME280_ERR_ADDR_SET, Some (c2\<lparr>fd := - 1\<rparr>), sys_close w2 (fd c2))
                       else (BME280_OK, Some c2, w2)))))"

definition bme280_close :: "world \<Rightarrow> bme280_ctx_t option \<Rightarrow> bme280_ctx_t option \<times> world" where
  "bme280_close w ctx =
     (case ctx of
        None \<Rightarrow> (ctx, w)
      | Some c \<Rightarrow>
          if fd c \<ge> 0 then (Some (c\<lparr>fd := - 1\<rparr>), sys_close w (fd c))
          else (ctx, w))"

section \<open>Reading the calibration registers and configuring the sensor\<close>

definition bme280_read_calibration ::
  "world \<Rightarrow> bme280_ctx_t option \<Rightarrow> bme280_error_t \<times> bme280_ctx_t option \<times> world" where
  "bme280_read_calibration w ctx =
     (case ctx of
        None \<Rightarrow> (BME280_ERR_NULL_PTR, ctx, w)
      | Some c \<Rightarrow>
         if fd c < 0 then (BME280_ERR_NOT_INIT, ctx, w)
         else
          (let (r1, w1) = sys_write w (fd c) [BME280_REG_CALIB_TEMP_PRESS]
           in if r1 \<noteq> 1 then (BME280_ERR_WRITE, Some c, w1)
           else
            (let (ret1, buf1, w2) = sys_read w1 (fd c) 24
             in if ret1 \<noteq> 24 then (BME280_ERR_READ, Some c, w2)
             else
              (let c1 = c\<lparr>calib := (calib c)\<lparr>temp := parse_temp buf1, press := parse_press buf1\<rparr>\<rparr>;
                   (r2, w3) = sys_write w2 (fd c1) [BME280_REG_CALIB_HUM1]
               in if r2 \<noteq> 1 then (BME280_ERR_WRITE, Some c1, w3)
               else
                (let (ret2, buf2, w4) = sys_read w3 (fd c1) 1
                 in if ret2 \<noteq> 1 then (BME280_ERR_READ, Some c1, w4)
                 else
                  (let c2 = c1\<lparr>calib := (calib c1)\<lparr>hum := (hum (calib c1))\<lparr>dig_H1 := buf2 ! 0\<rparr>\<rparr>\<rparr>;
                       (r3, w5) = sys_write w4 (fd c2) [BME280_REG_CALIB_HUM2]
                   in if r3 \<noteq> 1 then (BME280_ERR_WRITE, Some c2, w5)
                   else
                    (let (ret3, buf3, w6) = sys_read w5 (fd c2) 7
                     in if ret3 \<noteq> 7 then (BME280_ERR_READ, Some c2, w6)
                     else
                       (BME280_OK,
                        Some (c2\<lparr>calib := (calib c2)\<lparr>hum := parse_hum (dig_H1 (hum (calib c2))) buf3\<rparr>\<rparr>),
                        w6))))))))"

definition bme280_configure ::
  "world \<Rightarrow> bme280_ctx_t option \<Rightarrow> bme280_error_t \<times> bme280_ctx_t option \<times> world" where
  "bme280_configure w ctx =
     (case ctx of
        None \<Rightarrow> (BME280_ERR_NULL_PTR, ctx, w)
      | Some c \<Rightarrow>
         if fd c < 0 then (BME280_ERR_NOT_INIT, ctx, w)
         else
          (let (r1, w1) = sys_write w (fd c) [BME280_REG_CTRL_HUM, 0x01]
           in if r1 \<noteq> 2 then (BME280_ERR_WRITE, ctx, w1)
           else
            (let (r2, w2) = sys_write w1 (fd c) [BME280_REG_CTRL_MEAS, 0x27]
             in if r2 \<noteq> 2 then (BME280_ERR_WRITE, ctx, w2)
             else
              (let (r3, w3) = sys_write w2 (fd c) [BME280_REG_CONFIG, 0xA0]
               in if r3 \<noteq> 2 then (BME280_ERR_WRITE, ctx, w3)
               else (BME280_OK, ctx, w3)))))"

section \<open>Single-precision arithmetic\<close>

text \<open>
  The compensation formulas are written in C's \<open>float\<close>. A value of that type is a
  finite binary32 number (given by the rational it denotes, with the negative zero
  apart), an infinity, or a NaN. Every operation computes the exact result and rounds
  it once to the nearest binary32 number, ties to even: the IEEE 754 default that the
  driver's targets implement, each operation evaluated in single precision.
\<close>

datatype c_float = Finite rat | NegZero | PosInf | NegInf | NaN

definition pow2 :: "int \<Rightarrow> rat" where
  "pow2 e = (if 0 \<le> e then 2 ^ nat e else 1 / 2 ^ nat (- e))"

text \<open>
  \<open>ilog2 n a\<close> is the exponent \<open>e\<close> with \<open>2 ^ e \<le> a < 2 ^ (e + 1)\<close>, found in at
  most \<open>n\<close> halvings or doublings.
\<close>

fun ilog2 :: "nat \<Rightarrow> rat \<Rightarrow> int" where
  "ilog2 0 a = 0"
| "ilog2 (Suc n) a =
     (if 2 \<le> a then ilog2 n (a / 2) + 1
      else if a < 1 then ilog2 n (a * 2) - 1
      else 0)"

text \<open>
  The exponent of the binade a magnitude falls in, kept within binary32's range: below
  \<open>2 ^ -126\<close> the numbers are subnormal and share the exponent \<open>-126\<close>.
\<close>

definition binade :: "rat \<Rightarrow> int" where
  "binade a =
     (if a < pow2 (- 126) then - 126
      else if pow2 128 \<le> a then 127
      else ilog2 128 a)"

definition round_half_even :: "rat \<Rightarrow> int" where
  "round_half_even r =
     (let f = \<lfloor>r\<rfloor>; d = r - of_int f
      in if d < 1 / 2 then f
         else if 1 / 2 < d then f + 1
         else if even f then f else f + 1)"

text \<open>The spacing of the binary32 numbers around \<open>x\<close>: 24 significant bits.\<close>

definition quantum :: "rat \<Rightarrow> rat" where
  "quantum x = pow2 (binade \<bar>x\<bar> - 23)"

definition round32 :: "rat \<Rightarrow> rat" where
  "round32 x = of_int (round_half_even (x / quantum x)) * quantum x"

text \<open>
  Rounding an exact result that is not zero: a magnitude that rounds to \<open>2 ^ 128\<close>
  overflows to an infinity, a negative one that rounds to zero gives the negative zero.
\<close>

definition to_float :: "rat \<Rightarrow> c_float" where
  "to_float x =
     (let r = round32 x
      in if pow2 128 \<le> r then PosInf
         else if r \<le> - pow2 128 then NegInf
         else if r = 0 \<and> x < 0 then NegZero
         else Finite r)"

fun is_nan :: "c_float \<Rightarrow> bool" where
  "is_nan NaN = True"
| "is_nan _ = False"

fun is_inf :: "c_float \<Rightarrow> bool" where
  "is_inf PosInf = True"
| "is_inf NegInf = True"
| "is_inf _ = False"

fun is_finite :: "c_float \<Rightarrow> bool" where
  "is_finite (Finite r) = True"
| "is_finite NegZero = True"
| "is_finite _ = False"

text \<open>The number a finite value denotes (0 for the others, where it is not used).\<close>

fun fval :: "c_float \<Rightarrow> rat" where
  "fval (Finite r) = r"
| "fval _ = 0"

fun is_zero :: "c_float \<Rightarrow> bool" where
  "is_zero (Finite r) = (r = 0)"
| "is_zero NegZero = True"
| "is_zero _ = False"

text \<open>The sign bit.\<close>

fun is_neg :: "c_float \<Rightarrow> bool" where
  "is_neg (Finite r) = (r < 0)"
| "is_neg NegZero = True"
| "is_neg NegInf = True"
| "is_neg _ = False"

definition signed_zero :: "bool \<Rightarrow> c_float" where
  "signed_zero neg = (if neg then NegZero else Finite 0)"

definition signed_inf :: "bool \<Rightarrow> c_float" where
  "signed_inf neg = (if neg then NegInf else PosInf)"

fun fneg :: "c_float \<Rightarrow> c_float" where
  "fneg (Finite r) = (if r = 0 then NegZero else Finite (- r))"
| "fneg NegZero = Finite 0"
| "fneg PosInf = NegInf"
| "fneg NegInf = PosInf"
| "fneg NaN = NaN"

definition fadd :: "c_float \<Rightarrow> c_float \<Rightarrow> c_float" where
  "fadd a b =
     (if is_nan a \<or> is_nan b then NaN
      else if is_inf a then (if is_inf b \<and> a \<noteq> b then NaN else a)
      else if is_inf b then b
      else if fval a + fval b = 0
           then (if is_zero a \<and> is_zero b then signed_zero (is_neg a \<and> is_neg b) else Finite 0)
      else to_float (fval a + fval b))"

definition fsub :: "c_float \<Rightarrow> c_float \<Rightarrow> c_float" where
  "fsub a b = fadd a (fneg b)"

definition fmul :: "c_float \<Rightarrow> c_float \<Rightarrow> c_float" where
  "fmul a b =
     (if is_nan a \<or> is_nan b then NaN
      else if is_inf a \<or> is_inf b
           then (if is_zero a \<or> is_zero b then NaN else signed_inf (is_neg a \<noteq> is_neg b))
      else if fval a * fval b = 0 then signed_zero (is_neg a \<noteq> is_neg b)
      else to_float (fval a * fval b))"

definition fdiv :: "c_float \<Rightarrow> c_float \<Rightarrow> c_float" where
  "fdiv a b =
     (if is_nan a \<or> is_nan b then NaN
      else if is_inf a
           then (if is_inf b then NaN else signed_inf (is_neg a \<noteq> is_neg b))
      else if is_inf b then signed_zero (is_neg a \<noteq> is_neg b)
      else if is_zero b
           then (if is_zero a then NaN else signed_inf (is_neg a \<noteq> is_neg b))
      else if is_zero a then signed_zero (is_neg a \<noteq> is_neg b)
      else to_float (fval a / fval b))"

text \<open>The comparisons \<open><\<close> and \<open>>\<close>: false as soon as an operand is a NaN.\<close>

fun flt :: "c_float \<Rightarrow> c_float \<Rightarrow> bool" where
  "flt NaN b = False"
| "flt a NaN = False"
| "flt PosInf b = False"
| "flt a PosInf = True"
| "flt a NegInf = False"
| "flt NegInf b = True"
| "flt a b = (fval a < fval b)"

definition fgt :: "c_float \<Rightarrow> c_float \<Rightarrow> bool" where
  "fgt a b = flt b a"

text \<open>A constant of the source, and the conversion of an integer to \<open>float\<close>.\<close>

definition flit :: "rat \<Rightarrow> c_float" where
  "flit q = (if q = 0 then Finite 0 else to_float q)"

definition float_of_int :: "int \<Rightarrow> c_float" where
  "float_of_int i = flit (of_int i)"

text \<open>
  The cast \<open>(int32_t)\<close> of a \<open>float\<close> discards the fractional part. Where the integral
  part does not fit the type (and for an infinity or a NaN) C leaves the behaviour
  undefined: \<open>None\<close>.
\<close>

definition trunc_zero :: "rat \<Rightarrow> int" where
  "trunc_zero r = (if 0 \<le> r then \<lfloor>r\<rfloor> else \<lceil>r\<rceil>)"

definition int32_of_float :: "c_float \<Rightarrow> int32_t option" where
  "int32_of_float x =
     (if is_finite x \<and> - (2 ^ 31) \<le> trunc_zero (fval x) \<and> trunc_zero (fval x) < 2 ^ 31
      then Some (word_of_int (trunc_zero (fval x)))
      else None)"

section \<open>Reading and compensating a sample (bme280\_read\_data)\<close>

record bme280_data_t =
  temperature_c :: c_float
  temperature_f :: c_float
  pressure_hpa :: c_float
  humidity_rh :: c_float

text \<open>The three raw values in the eight bytes read from register 0xF7.\<close>

definition adc_p_of :: "uint8_t list \<Rightarrow> int32_t" where
  "adc_p_of buf =
     push_bit 12 (ucast (buf ! 0)) OR push_bit 4 (ucast (buf ! 1)) OR drop_bit 4 (ucast (buf ! 2))"

definition adc_t_of :: "uint8_t list \<Rightarrow> int32_t" where
  "adc_t_of buf =
     push_bit 12 (ucast (buf ! 3)) OR push_bit 4 (ucast (buf ! 4)) OR drop_bit 4 (ucast (buf ! 5))"

definition adc_h_of :: "uint8_t list \<Rightarrow> int32_t" where
  "adc_h_of buf = push_bit 8 (ucast (buf ! 6)) OR ucast (buf ! 7)"

text \<open>Temperature: the two terms \<open>var1\<close> and \<open>var2\<close>, and their sum.\<close>

definition temp_var1 :: "bme280_calib_temp_t \<Rightarrow> int32_t \<Rightarrow> c_float" where
  "temp_var1 T adc_t =
     fmul (fsub (fdiv (float_of_int (sint adc_t)) (flit 16384))
                (fdiv (float_of_int (uint (dig_T1 T))) (flit 1024)))
          (float_of_int (sint (dig_T2 T)))"

definition temp_var2 :: "bme280_calib_temp_t \<Rightarrow> int32_t \<Rightarrow> c_float" where
  "temp_var2 T adc_t =
     fmul (fmul (fsub (fdiv (float_of_int (sint adc_t)) (flit 131072))
                      (fdiv (float_of_int (uint (dig_T1 T))) (flit 8192)))
                (fsub (fdiv (float_of_int (sint adc_t)) (flit 131072))
                      (fdiv (float_of_int (uint (dig_T1 T))) (flit 8192))))
          (float_of_int (sint (dig_T3 T)))"

definition temp_sum :: "bme280_calib_temp_t \<Rightarrow> int32_t \<Rightarrow> c_float" where
  "temp_sum T adc_t = fadd (temp_var1 T adc_t) (temp_var2 T adc_t)"

text \<open>Pressure, from the fine temperature stored in the context.\<close>

definition pressure_var1 :: "bme280_calib_press_t \<Rightarrow> int32_t \<Rightarrow> c_float" where
  "pressure_var1 P tf =
     (let var1 = fsub (fdiv (float_of_int (sint tf)) (flit 2)) (flit 64000);
          var1 = fdiv (fadd (fdiv (fmul (fmul (float_of_int (sint (dig_P3 P))) var1) var1)
                                  (flit 524288))
                            (fmul (float_of_int (sint (dig_P2 P))) var1))
                      (flit 524288)
      in fmul (fadd (flit 1) (fdiv var1 (flit 32768))) (float_of_int (uint (dig_P1 P))))"

definition pressure_var2 :: "bme280_calib_press_t \<Rightarrow> int32_t \<Rightarrow> c_float" where
  "pressure_var2 P tf =
     (let var1 = fsub (fdiv (float_of_int (sint tf)) (flit 2)) (flit 64000);
          var2 = fdiv (fmul (fmul var1 var1) (float_of_int (sint (dig_P6 P)))) (flit 32768);
          var2 = fadd var2 (fmul (fmul var1 (float_of_int (sint (dig_P5 P)))) (flit 2))
      in fadd (fdiv var2 (flit 4)) (fmul (float_of_int (sint (dig_P4 P))) (flit 65536)))"

definition pressure_of :: "bme280_calib_press_t \<Rightarrow> int32_t \<Rightarrow> int32_t \<Rightarrow> c_float" where
  "pressure_of P tf adc_p =
     (let var1 = pressure_var1 P tf;
          var2 = pressure_var2 P tf;
          p = fsub (flit 1048576) (float_of_int (sint adc_p));
          p = fdiv (fmul (fsub p (fdiv var2 (flit 4096))) (flit 6250)) var1;
          var1 = fdiv (fmul (fmul (float_of_int (sint (dig_P9 P))) p) p) (flit 2147483648);
          var2 = fdiv (fmul p (float_of_int (sint (dig_P8 P)))) (flit 32768)
      in fdiv (fadd p (fdiv (fadd (fadd var1 var2) (float_of_int (sint (dig_P7 P)))) (flit 16)))
              (flit 100))"

text \<open>Humidity: the formula, and the clamp of its result to [0, 100].\<close>

definition humidity_formula :: "bme280_calib_hum_t \<Rightarrow> int32_t \<Rightarrow> int32_t \<Rightarrow> c_float" where
  "humidity_formula H tf adc_h =
     (let var_H = fsub (float_of_int (sint tf)) (flit 76800);
          var_H =
            fmul (fsub (float_of_int (sint adc_h))
                       (fadd (fmul (float_of_int (sint (dig_H4 H))) (flit 64))
                             (fmul (fdiv (float_of_int (sint (dig_H5 H))) (flit 16384)) var_H)))
                 (fmul (fdiv (float_of_int (sint (dig_H2 H))) (flit 65536))
                       (fadd (flit 1)
                             (fmul (fmul (fdiv (float_of_int (sint (dig_H6 H))) (flit 67108864)) var_H)
                                   (fadd (flit 1)
                                         (fmul (fdiv (float_of_int (uint (dig_H3 H))) (flit 67108864))
                                               var_H)))))
      in fmul var_H
              (fsub (flit 1) (fdiv (fmul (float_of_int (uint (dig_H1 H))) var_H) (flit 524288))))"

definition clamp_humidity :: "c_float \<Rightarrow> c_float" where
  "clamp_humidity h =
     (if fgt h (flit 100) then flit 100
      else if flt h (flit 0) then flit 0
      else h)"

text \<open>
  The function itself; \<open>flit (9 / 5)\<close> is the constant \<open>1.8f\<close>. Its result is \<open>None\<close> where the C program has no defined
  behaviour (the cast to \<open>int32_t\<close> of a sum that does not fit).
\<close>

definition bme280_read_data ::
  "world \<Rightarrow> bme280_ctx_t option \<Rightarrow> bme280_data_t option
     \<Rightarrow> (bme280_error_t \<times> bme280_ctx_t option \<times> bme280_data_t option \<times> world) option" where
  "bme280_read_data w ctx data =
     (case ctx of
        None \<Rightarrow> Some (BME280_ERR_NULL_PTR, ctx, data, w)
      | Some c \<Rightarrow>
         (case data of
            None \<Rightarrow> Some (BME280_ERR_NULL_PTR, ctx, data, w)
          | Some d \<Rightarrow>
             if fd c < 0 then Some (BME280_ERR_NOT_INIT, ctx, data, w)
             else
              (let (r, w1) = sys_write w (fd c) [BME280_REG_DATA]
               in if r \<noteq> 1 then Some (BME280_ERR_WRITE, ctx, data, w1)
               else
                (let (ret, buf, w2) = sys_read w1 (fd c) 8
                 in if ret \<noteq> 8 then Some (BME280_ERR_READ, ctx, data, w2)
                 else
                  (let adc_p = adc_p_of buf;
                       adc_t = adc_t_of buf;
                       adc_h = adc_h_of buf;
                       s = temp_sum (temp (calib c)) adc_t
                   in case int32_of_float s of
                        None \<Rightarrow> None
                      | Some tf \<Rightarrow>
                         (let c1 = c\<lparr>t_fine := tf\<rparr>;
                              d1 = d\<lparr>temperature_c := fdiv s (flit 5120)\<rparr>;
                              d2 = d1\<lparr>temperature_f :=
                                       fadd (fmul (temperature_c d1) (flit (9 / 5))) (flit 32)\<rparr>;
                              d3 = d2\<lparr>pressure_hpa :=
                                       pressure_of (press (calib c1)) (t_fine c1) adc_p\<rparr>;
                              d4 = d3\<lparr>humidity_rh :=
                                       clamp_humidity
                                         (humidity_formula (hum (calib c1)) (t_fine c1) adc_h)\<rparr>
                          in Some (BME280_OK, Some c1, Some d4, w2)))))))"

section \<open>What section 4.1 says of H4 and H5, and sample inputs\<close>

text \<open>
  The specification reads the two packed coefficients as signed 12-bit values. These
  two definitions follow its words (the assembled pattern, read in two's complement
  on 12 bits); the parser above follows the source.
\<close>

definition spec_H4_value :: "uint8_t list \<Rightarrow> int" where
  "spec_H4_value buf =
     signed_take_bit 11 (push_bit 4 (uint (buf ! 3)) OR (uint (buf ! 4) AND 0x0F))"

definition spec_H5_value :: "uint8_t list \<Rightarrow> int" where
  "spec_H5_value buf =
     signed_take_bit 11 ((drop_bit 4 (uint (buf ! 4)) AND 0x0F) OR push_bit 4 (uint (buf ! 5)))"

text \<open>Coefficients that are all zero but H4, which is \<open>-1\<close>.\<close>

definition negative_H4 :: bme280_calib_t where
  "negative_H4 = zero_calib\<lparr>hum := (hum zero_calib)\<lparr>dig_H4 := - 1\<rparr>\<rparr>"

text \<open>
  A process with three descriptors in use, in which the bus can be opened but the
  sensor does not answer at its address; and a context as a caller declares it.
\<close>

definition unanswered_world :: world where
  "unanswered_world =
     \<lparr> open_fds = [0, 1, 2], open_script = [True], ioctl_script = [- 1],
       write_script = [], read_script = [], written = [] \<rparr>"

definition fresh_ctx :: bme280_ctx_t where
  "fresh_ctx = \<lparr> fd = - 1, address = 0, calib = zero_calib, t_fine = 0 \<rparr>"

text \<open>A finite value of magnitude at most \<open>2 ^ k\<close>.\<close>

definition bounded :: "int \<Rightarrow> c_float \<Rightarrow> bool" where
  "bounded k x = (is_finite x \<and> \<bar>fval x\<bar> \<le> pow2 k)"

text \<open>
  A sensor as the specification's end-to-end scenario describes it (T1 = 27504,
  T2 = 26435, T3 = -1000; the other coefficients within the ranges of the test suite),
  opened on descriptor 3, and a world in which the next register write succeeds and the
  burst read returns the raw values P = 415148, T = 519888, H = 32768.
\<close>

definition example_calib :: bme280_calib_t where
  "example_calib =
     \<lparr> temp = \<lparr> dig_T1 = 27504, dig_T2 = 26435, dig_T3 = - 1000 \<rparr>,
       press = \<lparr> dig_P1 = 36477, dig_P2 = - 10685, dig_P3 = 3024, dig_P4 = 2855, dig_P5 = 140,
                 dig_P6 = - 7, dig_P7 = 15500, dig_P8 = - 14600, dig_P9 = 6000 \<rparr>,
       hum = \<lparr> dig_H1 = 75, dig_H2 = 367, dig_H3 = 0, dig_H4 = 311, dig_H5 = 50, dig_H6 = 30 \<rparr> \<rparr>"

definition example_ctx :: bme280_ctx_t where
  "example_ctx = \<lparr> fd = 3, address = 0x76, calib = example_calib, t_fine = 0 \<rparr>"

definition burst_world :: "uint8_t list \<Rightarrow> world" where
  "burst_world bytes =
     \<lparr> open_fds = [3, 0, 1, 2], open_script = [], ioctl_script = [],
       write_script = [1], read_script = [Some bytes], written = [] \<rparr>"

definition example_world :: world where
  "example_world = burst_world [0x65, 0x5A, 0xC0, 0x7E, 0xED, 0x00, 0x80, 0x00]"

text \<open>The same sensor below the freezing point: raw temperature 424192.\<close>

definition freezing_world :: world where
  "freezing_world = burst_world [0x65, 0x5A, 0xC0, 0x67, 0x90, 0x00, 0x80, 0x00]"

text \<open>
  A context whose coefficients are all zero (P1 = 0 among them), and a burst of zero
  bytes.
\<close>

definition zero_ctx :: bme280_ctx_t where
  "zero_ctx = \<lparr> fd = 3, address = 0x76, calib = zero_calib, t_fine = 0 \<rparr>"

definition zero_world :: world where
  "zero_world = burst_world [0, 0, 0, 0, 0, 0, 0, 0]"

text \<open>A world in which the register write of the next call fails.\<close>

definition stuck_world :: world where
  "stuck_world =
     \<lparr> open_fds = [3, 0, 1, 2], open_script = [], ioctl_script = [],
       write_script = [0], read_script = [], written = [] \<rparr>"

definition blank_data :: bme280_data_t where
  "blank_data =
     \<lparr> temperature_c = Finite 0, temperature_f = Finite 0,
       pressure_hpa = Finite 0, humidity_rh = Finite 0 \<rparr>"

text \<open>
  The three operations that need an open session all refuse with
  \<open>BME280_ERR_NOT_INIT\<close>, leaving the context, the output and the world as they were.
\<close>

definition refused_not_init :: "world \<Rightarrow> bme280_ctx_t \<Rightarrow> bme280_data_t \<Rightarrow> bool" where
  "refused_not_init w c d =
     (bme280_read_calibration w (Some c) = (BME280_ERR_NOT_INIT, Some c, w) \<and>
      bme280_configure w (Some c) = (BME280_ERR_NOT_INIT, Some c, w) \<and>
      bme280_read_data w (Some c) (Some d) = Some (BME280_ERR_NOT_INIT, Some c, Some d, w))"

text \<open>
  A sensor opened on descriptor 3 whose three calibration reads succeed and return the
  given buffers; and the sensor whose registers hold the encoding of a coefficient set.
\<close>

definition register_world :: "uint8_t list \<Rightarrow> uint8_t list \<Rightarrow> uint8_t list \<Rightarrow> world" where
  "register_world tp h1 h2 =
     \<lparr> open_fds = [3, 0, 1, 2], open_script = [], ioctl_script = [],
       write_script = [1, 1, 1], read_script = [Some tp, Some h1, Some h2], written = [] \<rparr>"

definition sensor_holding :: "bme280_calib_t \<Rightarrow> world" where
  "sensor_holding cal = register_world (encode_temp_press cal) (encode_hum1 cal) (encode_hum2 cal)"

text \<open>
  The bytes a call of \<open>bme280_read_data\<close> on the world \<open>w\<close> and the context \<open>c\<close>
  receives: those its read of eight bytes delivers, in the world its write of the
  register address \<open>0xF7\<close> leaves.
\<close>

definition burst_read :: "world \<Rightarrow> bme280_ctx_t \<Rightarrow> uint8_t list" where
  "burst_read w c = fst (snd (sys_read (snd (sys_write w (fd c) [BME280_REG_DATA])) (fd c) 8))"

section \<open>The calibration parser against the register layout\<close>

lemma mask4: "(0x0F :: 'a::len word) = mask 4"
  by (simp add: mask_eq_decr_exp)

lemma mask12: "(0x0FFF :: 'a::len word) = mask 12"
  by (simp add: mask_eq_decr_exp)

lemma le16_lo8_hi8: "ucast (le16 (lo8 w) (hi8 w)) = (w :: 16 word)"
  unfolding le16_def lo8_def hi8_def
  by (rule bit_word_eqI) (auto simp add: bit_simps not_le not_less)

lemma parse_H4_take_bit: "parse_H4 buf = take_bit 12 (parse_H4 buf)"
  unfolding parse_H4_def mask4
  by (rule bit_word_eqI) (auto simp add: bit_simps not_le not_less dest: bit_imp_le_length)

lemma parse_H5_take_bit: "parse_H5 buf = take_bit 12 (parse_H5 buf)"
  unfolding parse_H5_def mask4
  by (rule bit_word_eqI) (auto simp add: bit_simps not_le not_less dest: bit_imp_le_length)

lemma sint_take_bit_12:
  fixes w :: "16 word"
  assumes "w = take_bit 12 w"
  shows "0 \<le> sint w \<and> sint w < 4096"
proof -
  have "take_bit 12 (uint w) < 2 ^ 12"
    by (rule take_bit_int_less_exp)
  then have "uint (take_bit 12 w) < 2 ^ 12"
    by (simp only: unsigned_take_bit_eq)
  with assms have u: "uint w < 4096" by simp
  have "sint w = signed_take_bit 15 (uint w)"
    by (simp add: sint_uint)
  also have "\<dots> = uint w"
  proof (rule signed_take_bit_int_eq_self)
    have "- (2 ^ 15) \<le> (0::int)" by simp
    also have "0 \<le> uint w" by simp
    finally show "- (2 ^ 15) \<le> uint w" .
    from u show "uint w < 2 ^ 15" by simp
  qed
  finally show ?thesis using u by simp
qed

lemma parse_H4_encode: "parse_H4 (encode_hum2 c) = dig_H4 (hum c) AND 0x0FFF"
  unfolding parse_H4_def encode_hum2_def mask4 mask12
  apply simp
  apply (rule bit_word_eqI)
  subgoal for n
    by (cases "n < 4") (auto simp add: bit_simps not_le not_less)
  done

lemma parse_H5_encode: "parse_H5 (encode_hum2 c) = dig_H5 (hum c) AND 0x0FFF"
  unfolding parse_H5_def encode_hum2_def mask4 mask12
  apply simp
  apply (rule bit_word_eqI)
  subgoal for n
    by (cases "n < 4") (auto simp add: bit_simps not_le not_less)
  done

text \<open>
  \<open>bme280_read_calibration\<close> on a sensor that answers: the context receives what the
  parser makes of the three buffers.
\<close>

lemma read_calibration_parses:
  assumes "length tp = 24" "length h1 = 1" "length h2 = 7" "fd c = 3"
  shows "\<exists>w'. bme280_read_calibration (register_world tp h1 h2) (Some c)
                = (BME280_OK, Some (c\<lparr>calib := parse_calibration tp h1 h2\<rparr>), w')"
proof -
  have "(calib c)\<lparr>temp := parse_temp tp, press := parse_press tp,
                   hum := parse_hum (h1 ! 0) h2\<rparr> = parse_calibration tp h1 h2"
    by (cases "calib c") (simp add: parse_calibration_def)
  then show ?thesis
    using assms
    by (simp add: bme280_read_calibration_def register_world_def sys_write_def sys_read_def
          Let_def parse_hum_def)
qed

lemma read_calibration_of_encoding:
  assumes "fd c = 3"
  shows "\<exists>w'. bme280_read_calibration (sensor_holding cal) (Some c)
                = (BME280_OK, Some (c\<lparr>calib := decode_encoded cal\<rparr>), w')"
  unfolding sensor_holding_def decode_encoded_def
  using assms
  by (intro read_calibration_parses) (simp_all add: encode_temp_press_def encode_hum1_def encode_hum2_def)

text \<open>
  What the round trip does give: every field but H4 and H5 comes back as it was, and of
  H4 and H5 the low twelve bits.
\<close>

lemma decode_of_encode:
  "decode_encoded c =
     c\<lparr>hum := (hum c)\<lparr>dig_H4 := dig_H4 (hum c) AND 0x0FFF,
                          dig_H5 := dig_H5 (hum c) AND 0x0FFF\<rparr>\<rparr>"
proof -
  have t: "parse_temp (encode_temp_press c) = temp c"
    by (simp add: parse_temp_def encode_temp_press_def le16_lo8_hi8)
  have p: "parse_press (encode_temp_press c) = press c"
    by (simp add: parse_press_def encode_temp_press_def le16_lo8_hi8)
  have e: "encode_hum2 c ! 0 = lo8 (dig_H2 (hum c))" "encode_hum2 c ! Suc 0 = hi8 (dig_H2 (hum c))"
    "encode_hum2 c ! 2 = dig_H3 (hum c)" "encode_hum2 c ! 6 = dig_H6 (hum c)"
    by (simp_all add: encode_hum2_def)
  have h: "parse_hum (encode_hum1 c ! 0) (encode_hum2 c) =
             (hum c)\<lparr>dig_H4 := dig_H4 (hum c) AND 0x0FFF, dig_H5 := dig_H5 (hum c) AND 0x0FFF\<rparr>"
    by (cases "hum c")
       (simp add: parse_hum_def e le16_lo8_hi8 parse_H4_encode parse_H5_encode encode_hum1_def)
  show ?thesis
    by (simp add: decode_encoded_def parse_calibration_def t p h)
qed

lemma and_mask12_id:
  fixes w :: "16 word"
  assumes "0 \<le> sint w" "sint w < 2048"
  shows "w AND 0x0FFF = w"
proof -
  have "uint w = take_bit 16 (sint w)" using uint_sint[of w] by simp
  also have "\<dots> = sint w" using assms by (simp add: take_bit_int_eq_self)
  finally have u: "uint w < 2 ^ 12" using assms by simp
  then have "uint (take_bit 12 w) = uint w"
    by (simp add: unsigned_take_bit_eq take_bit_int_eq_self)
  then have "take_bit 12 w = w" by (rule word_uint_eqI)
  then have "w AND mask 12 = w" by (simp add: take_bit_eq_mask)
  then show ?thesis by (simp add: mask12)
qed

text \<open>
  Hence the round trip through the register layout is exact, on all sixteen fields, for
  every coefficient set whose H4 and H5 are not negative.
\<close>

theorem roundtrip_exact_without_sign:
  assumes "0 \<le> sint (dig_H4 (hum cal))" "sint (dig_H4 (hum cal)) < 2048"
    and "0 \<le> sint (dig_H5 (hum cal))" "sint (dig_H5 (hum cal)) < 2048"
  shows "decode_encoded cal = cal \<and>
         (\<exists>w'. bme280_read_calibration (sensor_holding cal) (Some example_ctx)
                 = (BME280_OK, Some (example_ctx\<lparr>calib := cal\<rparr>), w'))"
proof -
  from assms have d: "decode_encoded cal = cal"
    by (simp add: decode_of_encode and_mask12_id)
  have "fd example_ctx = 3" by (simp add: example_ctx_def)
  from read_calibration_of_encoding[OF this, of cal] d show ?thesis by simp
qed

theorem roundtrip_exact_without_sign_witness:
  "decode_encoded example_calib = example_calib \<and>
   (\<exists>w'. bme280_read_calibration (sensor_holding example_calib) (Some example_ctx)
           = (BME280_OK, Some (example_ctx\<lparr>calib := example_calib\<rparr>), w'))"
proof -
  have "0 \<le> sint (dig_H4 (hum example_calib))" "sint (dig_H4 (hum example_calib)) < 2048"
    "0 \<le> sint (dig_H5 (hum example_calib))" "sint (dig_H5 (hum example_calib)) < 2048"
    by (simp_all add: example_calib_def)
  then show ?thesis by (rule roundtrip_exact_without_sign)
qed

text \<open>
  C1. Claimed: encoding any coefficient set (H4 and H5 within the signed 12-bit range)
  into the three register buffers and parsing them gives the set back, bit for bit.
  The parser does not do so for a negative H4: the coefficients that are zero but for
  H4 = -1, a signed 12-bit value, come back with H4 = 4095.
\<close>

theorem roundtrip_breaks_on_negative_H4:
  "signed12 (dig_H4 (hum negative_H4)) \<and> sint (dig_H4 (hum negative_H4)) = - 1 \<and>
   (\<exists>c' w'. bme280_read_calibration (sensor_holding negative_H4) (Some example_ctx)
              = (BME280_OK, Some c', w') \<and>
            sint (dig_H4 (hum (calib c'))) = 4095 \<and> calib c' \<noteq> negative_H4)"
proof -
  have a: "sint (dig_H4 (hum negative_H4)) = - 1"
    by (simp add: negative_H4_def)
  have "dig_H4 (hum (decode_encoded negative_H4)) = dig_H4 (hum negative_H4) AND 0x0FFF"
    by (simp add: decode_of_encode)
  then have b: "sint (dig_H4 (hum (decode_encoded negative_H4))) = 4095"
    by (simp add: negative_H4_def)
  from a b have ne: "decode_encoded negative_H4 \<noteq> negative_H4" by auto
  have "fd example_ctx = 3" by (simp add: example_ctx_def)
  from read_calibration_of_encoding[OF this, of negative_H4] obtain w' where
    "bme280_read_calibration (sensor_holding negative_H4) (Some example_ctx)
       = (BME280_OK, Some (example_ctx\<lparr>calib := decode_encoded negative_H4\<rparr>), w')"
    by blast
  with b ne have "\<exists>c' w'. bme280_read_calibration (sensor_holding negative_H4) (Some example_ctx)
              = (BME280_OK, Some c', w') \<and>
            sint (dig_H4 (hum (calib c'))) = 4095 \<and> calib c' \<noteq> negative_H4"
    by simp
  with a show ?thesis by (simp add: signed12_def)
qed

text \<open>
  C2. Claimed: H4 and H5 are decoded as signed 12-bit values, so a pattern with bit
  11 set gives a negative coefficient. The parser casts the assembled 12-bit pattern to
  \<open>int16_t\<close> without extending its sign: for every buffer both coefficients lie in
  0..4095, and the pattern 0xFFF, which the specification reads as -1, is decoded as
  4095.
\<close>

theorem H4_H5_decode_is_never_negative:
  "0 \<le> sint (parse_H4 buf) \<and> sint (parse_H4 buf) < 4096 \<and>
   0 \<le> sint (parse_H5 buf) \<and> sint (parse_H5 buf) < 4096 \<and>
   spec_H4_value [0, 0, 0, 0xFF, 0x0F, 0, 0] = - 1 \<and>
   spec_H5_value [0, 0, 0, 0, 0xF0, 0xFF, 0] = - 1 \<and>
   (\<exists>c' w'. bme280_read_calibration
                (register_world (replicate 24 0) [0] [0, 0, 0, 0xFF, 0x0F, 0, 0]) (Some example_ctx)
              = (BME280_OK, Some c', w') \<and>
            sint (dig_H4 (hum (calib c'))) = 4095) \<and>
   (\<exists>c' w'. bme280_read_calibration
                (register_world (replicate 24 0) [0] [0, 0, 0, 0, 0xF0, 0xFF, 0]) (Some example_ctx)
              = (BME280_OK, Some c', w') \<and>
            sint (dig_H5 (hum (calib c'))) = 4095)"
proof -
  have fd3: "fd example_ctx = 3" by (simp add: example_ctx_def)
  have a: "sint (dig_H4 (hum (parse_calibration (replicate 24 0) [0] [0, 0, 0, 0xFF, 0x0F, 0, 0])))
             = 4095"
    by (simp add: parse_calibration_def parse_hum_def parse_H4_def)
  have b: "spec_H4_value [0, 0, 0, 0xFF, 0x0F, 0, 0] = - 1"
    by (simp add: spec_H4_value_def)
  have c: "sint (dig_H5 (hum (parse_calibration (replicate 24 0) [0] [0, 0, 0, 0, 0xF0, 0xFF, 0])))
             = 4095"
    by (simp add: parse_calibration_def parse_hum_def parse_H5_def)
  have d: "spec_H5_value [0, 0, 0, 0, 0xF0, 0xFF, 0] = - 1"
    by (simp add: spec_H5_value_def)
  from read_calibration_parses[of "replicate 24 0" "[0]" "[0, 0, 0, 0xFF, 0x0F, 0, 0]" example_ctx]
    fd3 a
  have e: "\<exists>c' w'. bme280_read_calibration
                (register_world (replicate 24 0) [0] [0, 0, 0, 0xFF, 0x0F, 0, 0]) (Some example_ctx)
              = (BME280_OK, Some c', w') \<and>
            sint (dig_H4 (hum (calib c'))) = 4095"
    by auto
  from read_calibration_parses[of "replicate 24 0" "[0]" "[0, 0, 0, 0, 0xF0, 0xFF, 0]" example_ctx]
    fd3 c
  have f: "\<exists>c' w'. bme280_read_calibration
                (register_world (replicate 24 0) [0] [0, 0, 0, 0, 0xF0, 0xFF, 0]) (Some example_ctx)
              = (BME280_OK, Some c', w') \<and>
            sint (dig_H5 (hum (calib c'))) = 4095"
    by auto
  from sint_take_bit_12[OF parse_H4_take_bit] sint_take_bit_12[OF parse_H5_take_bit] b d e f
  show ?thesis by blast
qed

section \<open>Descriptors: what initialisation and cleanup leave open\<close>

lemma lowest_unused_mem:
  "lowest_unused fds \<in> set (filter (\<lambda>n. n \<notin> set fds) (map int [0 ..< Suc (length fds)]))"
proof -
  let ?cands = "map int [0 ..< Suc (length fds)]"
  have "\<exists>n \<in> set ?cands. n \<notin> set fds"
  proof (rule ccontr)
    assume "\<not> (\<exists>n \<in> set ?cands. n \<notin> set fds)"
    then have sub: "set ?cands \<subseteq> set fds" by blast
    have "distinct ?cands" by (simp add: distinct_map del: upt_Suc)
    then have "card (set ?cands) = Suc (length fds)"
      by (simp add: distinct_card del: upt_Suc set_map set_upt)
    moreover have "card (set ?cands) \<le> card (set fds)" using sub by (simp add: card_mono)
    moreover have "card (set fds) \<le> length fds" by (rule card_length)
    ultimately show False by linarith
  qed
  then have "filter (\<lambda>n. n \<notin> set fds) ?cands \<noteq> []"
    by (simp add: filter_empty_conv del: upt_Suc)
  then show ?thesis unfolding lowest_unused_def by (rule hd_in_set)
qed

lemma lowest_unused_fresh: "lowest_unused fds \<notin> set fds"
  using lowest_unused_mem[of fds] by (simp del: upt_Suc)

lemma lowest_unused_nonneg: "0 \<le> lowest_unused fds"
  using lowest_unused_mem[of fds] by (auto simp del: upt_Suc)

lemma sys_ioctl_open_fds: "sys_ioctl w d r a = (i, w') \<Longrightarrow> open_fds w' = open_fds w"
  by (auto simp: sys_ioctl_def split: if_splits list.splits)

lemma sys_open_fails: "sys_open w p = (r, w') \<Longrightarrow> r < 0 \<Longrightarrow> open_fds w' = open_fds w"
  using lowest_unused_nonneg[of "open_fds w"]
  by (auto simp: sys_open_def Let_def split: list.splits if_splits)

lemma sys_open_succeeds:
  "sys_open w p = (r, w') \<Longrightarrow> \<not> r < 0 \<Longrightarrow> open_fds w' = r # open_fds w \<and> r \<notin> set (open_fds w)"
  using lowest_unused_fresh[of "open_fds w"]
  by (auto simp: sys_open_def Let_def split: list.splits if_splits)

lemma init_failure_fds:
  assumes "bme280_init w ctx bus_path addr = (e, ctx', w')" and "e \<noteq> BME280_OK"
  shows "open_fds w' = open_fds w"
proof (cases ctx)
  case None
  with assms show ?thesis by (simp add: bme280_init_def)
next
  case (Some c)
  show ?thesis
  proof (cases bus_path)
    case None
    with Some assms show ?thesis by (simp add: bme280_init_def)
  next
    case (Some path)
    obtain r w1 where o: "sys_open w path = (r, w1)" by (cases "sys_open w path")
    show ?thesis
    proof (cases "r < 0")
      case True
      with assms \<open>ctx = Some c\<close> Some o sys_open_fails[OF o] show ?thesis
        by (simp add: bme280_init_def Let_def)
    next
      case False
      obtain i w2 where io: "sys_ioctl w1 r I2C_SLAVE addr = (i, w2)"
        by (cases "sys_ioctl w1 r I2C_SLAVE addr")
      from sys_open_succeeds[OF o False] sys_ioctl_open_fds[OF io]
      have "open_fds w2 = r # open_fds w" "r \<notin> set (open_fds w)" by simp_all
      with assms \<open>ctx = Some c\<close> Some o io False show ?thesis
        by (auto simp add: bme280_init_def Let_def sys_close_def split: if_splits)
    qed
  qed
qed

lemma init_failure_fd:
  assumes "bme280_init w (Some c) (Some path) addr = (e, ctx', w')" and "e \<noteq> BME280_OK"
  shows "\<exists>c'. ctx' = Some c' \<and> fd c' < 0"
  using assms
  by (auto simp add: bme280_init_def Let_def split: prod.splits if_splits)

text \<open>
  C7. When \<open>bme280_init\<close> fails, on any of its paths, the descriptors open afterwards
  are the ones that were open before: the bus handle opened by a call whose address
  binding fails has been closed again. On that path the call returns
  \<open>BME280_ERR_ADDR_SET\<close> with the stored descriptor reset to \<open>-1\<close>.
\<close>

theorem init_failure_releases_handle:
  assumes "bme280_init w ctx bus_path addr = (e, ctx', w')" and "e \<noteq> BME280_OK"
  shows "open_fds w' = open_fds w \<and>
         (e = BME280_ERR_ADDR_SET \<longrightarrow> (\<exists>c'. ctx' = Some c' \<and> fd c' = - 1))"
proof
  from assms show "open_fds w' = open_fds w" by (rule init_failure_fds)
  from assms show "e = BME280_ERR_ADDR_SET \<longrightarrow> (\<exists>c'. ctx' = Some c' \<and> fd c' = - 1)"
    by (auto simp add: bme280_init_def Let_def split: option.splits prod.splits if_splits)
qed

theorem init_failure_releases_handle_witness:
  "\<exists>ctx' w'.
     bme280_init unanswered_world (Some fresh_ctx) (Some ''/dev/i2c-1'') 0x76
       = (BME280_ERR_ADDR_SET, ctx', w') \<and>
     open_fds w' = [0, 1, 2] \<and> (\<exists>c'. ctx' = Some c' \<and> fd c' = - 1)"
proof -
  obtain e ctx' w' where
    run: "bme280_init unanswered_world (Some fresh_ctx) (Some ''/dev/i2c-1'') 0x76 = (e, ctx', w')"
    by (cases "bme280_init unanswered_world (Some fresh_ctx) (Some ''/dev/i2c-1'') 0x76")
  have "fst (bme280_init unanswered_world (Some fresh_ctx) (Some ''/dev/i2c-1'') 0x76)
          = BME280_ERR_ADDR_SET"
    by code_simp
  with run have e: "e = BME280_ERR_ADDR_SET" by simp
  then have ne: "e \<noteq> BME280_OK" by simp
  from init_failure_releases_handle[OF run ne] e
  have "open_fds w' = open_fds unanswered_world" "\<exists>c'. ctx' = Some c' \<and> fd c' = - 1"
    by simp_all
  with run e show ?thesis by (simp add: unanswered_world_def)
qed

section \<open>Single-precision arithmetic: exponents and rounding\<close>

lemma pow2_pos: "0 < pow2 e"
  by (simp add: pow2_def)

lemma pow2_0: "pow2 0 = 1" by (simp add: pow2_def)

lemma pow2_powi: "pow2 e = 2 powi e"
  by (simp add: pow2_def power_int_def power_one_over)

lemma pow2_add: "pow2 (a + b) = pow2 a * pow2 b"
  by (simp add: pow2_powi power_int_add)

lemma pow2_Suc: "pow2 (e + 1) = 2 * pow2 e"
  by (simp add: pow2_add) (simp add: pow2_def)

lemma pow2_diff1: "pow2 (e - 1) = pow2 e / 2"
  using pow2_Suc[of "e - 1"] by simp

lemma pow2_mono: "a \<le> b \<Longrightarrow> pow2 a \<le> pow2 b"
  by (simp add: pow2_powi power_int_increasing)

lemma pow2_strict_mono: "a < b \<Longrightarrow> pow2 a < pow2 b"
  by (simp add: pow2_powi power_int_strict_increasing)

lemma pow2_le_iff: "pow2 a \<le> pow2 b \<longleftrightarrow> a \<le> b"
  using pow2_mono pow2_strict_mono by (metis not_le)

lemma pow2_less_iff: "pow2 a < pow2 b \<longleftrightarrow> a < b"
  using pow2_mono pow2_strict_mono by (metis not_le)

lemma pow2_nat: "pow2 (int n) = 2 ^ n"
  by (simp add: pow2_def)

lemma ilog2_bounds:
  "pow2 (- int n) \<le> a \<Longrightarrow> a < pow2 (int n + 1)
     \<Longrightarrow> pow2 (ilog2 n a) \<le> a \<and> a < pow2 (ilog2 n a + 1)"
proof (induction n arbitrary: a)
  case 0
  then show ?case by (simp add: pow2_def)
next
  case (Suc n)
  show ?case
  proof (cases "2 \<le> a")
    case True
    have "pow2 (- int n) \<le> a / 2"
    proof -
      have "pow2 (- int n) \<le> pow2 0" by (rule pow2_mono) simp
      with True show ?thesis by (simp add: pow2_0)
    qed
    moreover have "a / 2 < pow2 (int n + 1)"
      using Suc.prems(2) pow2_Suc[of "int n + 1"] by (simp add: add.commute)
    ultimately have "pow2 (ilog2 n (a / 2)) \<le> a / 2 \<and> a / 2 < pow2 (ilog2 n (a / 2) + 1)"
      by (rule Suc.IH)
    then have "2 * pow2 (ilog2 n (a / 2)) \<le> a" "a < 2 * pow2 (ilog2 n (a / 2) + 1)"
      by simp_all
    then have "pow2 (ilog2 n (a / 2) + 1) \<le> a" "a < pow2 (ilog2 n (a / 2) + 1 + 1)"
      by (simp_all only: pow2_Suc)
    with True show ?thesis by simp
  next
    case False
    show ?thesis
    proof (cases "a < 1")
      case True
      have "pow2 (- int n) \<le> a * 2"
        using Suc.prems(1) pow2_Suc[of "- int (Suc n)"] by simp
      moreover have "a * 2 < pow2 (int n + 1)"
      proof -
        have "pow2 1 \<le> pow2 (int n + 1)" by (rule pow2_mono) simp
        with True show ?thesis by (simp add: pow2_def)
      qed
      ultimately have ih: "pow2 (ilog2 n (a * 2)) \<le> a * 2" "a * 2 < pow2 (ilog2 n (a * 2) + 1)"
        using Suc.IH[of "a * 2"] by simp_all
      have "pow2 (ilog2 n (a * 2) - 1) = pow2 (ilog2 n (a * 2)) / 2" by (rule pow2_diff1)
      with ih(1) have lo: "pow2 (ilog2 n (a * 2) - 1) \<le> a" by simp
      have "pow2 (ilog2 n (a * 2) + 1) = 2 * pow2 (ilog2 n (a * 2))" by (rule pow2_Suc)
      with ih(2) have hi: "a < pow2 (ilog2 n (a * 2) - 1 + 1)" by simp
      from lo hi True False show ?thesis by simp
    next
      case F2: False
      with False show ?thesis by (simp add: pow2_def)
    qed
  qed
qed

lemma binade_range: "- 126 \<le> binade a \<and> binade a \<le> 127"
proof -
  have "pow2 (- 126) \<le> a \<Longrightarrow> a < pow2 128 \<Longrightarrow> - 126 \<le> ilog2 128 a \<and> ilog2 128 a \<le> 127"
  proof -
    assume lo: "pow2 (- 126) \<le> a" and hi: "a < pow2 128"
    have "pow2 (- int 128) \<le> pow2 (- 126)" by (rule pow2_mono) simp
    with lo have lo': "pow2 (- int 128) \<le> a" by simp
    have "pow2 128 \<le> pow2 (int 128 + 1)" by (rule pow2_mono) simp
    with hi have hi': "a < pow2 (int 128 + 1)" by simp
    from ilog2_bounds[OF lo' hi']
    have b: "pow2 (ilog2 128 a) \<le> a" "a < pow2 (ilog2 128 a + 1)" by simp_all
    from b(1) hi have "pow2 (ilog2 128 a) < pow2 128" by simp
    then have "ilog2 128 a < 128" by (simp add: pow2_less_iff)
    moreover from b(2) lo have "pow2 (- 126) < pow2 (ilog2 128 a + 1)" by simp
    then have "- 126 < ilog2 128 a + 1" by (simp add: pow2_less_iff)
    ultimately show ?thesis by simp
  qed
  then show ?thesis by (auto simp add: binade_def not_less not_le)
qed

lemma binade_lower: "pow2 (- 126) \<le> a \<Longrightarrow> pow2 (binade a) \<le> a"
proof -
  assume lo: "pow2 (- 126) \<le> a"
  show ?thesis
  proof (cases "pow2 128 \<le> a")
    case True
    have "pow2 127 \<le> pow2 128" by (rule pow2_mono) simp
    with True lo show ?thesis by (simp add: binade_def not_less)
  next
    case False
    have "pow2 (- int 128) \<le> pow2 (- 126)" by (rule pow2_mono) simp
    with lo have lo': "pow2 (- int 128) \<le> a" by simp
    have "pow2 128 \<le> pow2 (int 128 + 1)" by (rule pow2_mono) simp
    with False have hi': "a < pow2 (int 128 + 1)" by simp
    from ilog2_bounds[OF lo' hi'] lo False show ?thesis by (simp add: binade_def not_less)
  qed
qed

lemma binade_upper: "a < pow2 128 \<Longrightarrow> a < pow2 (binade a + 1)"
proof -
  assume hi: "a < pow2 128"
  show ?thesis
  proof (cases "a < pow2 (- 126)")
    case True
    have "pow2 (- 126) \<le> pow2 (- 126 + 1)" by (rule pow2_mono) simp
    with True show ?thesis by (simp add: binade_def)
  next
    case False
    have "pow2 (- int 128) \<le> pow2 (- 126)" by (rule pow2_mono) simp
    with False have lo': "pow2 (- int 128) \<le> a" by simp
    have "pow2 128 \<le> pow2 (int 128 + 1)" by (rule pow2_mono) simp
    with hi have hi': "a < pow2 (int 128 + 1)" by simp
    from ilog2_bounds[OF lo' hi'] hi False show ?thesis by (simp add: binade_def not_less)
  qed
qed

lemma round_half_even_le: "r \<le> of_int n \<Longrightarrow> round_half_even r \<le> n"
proof -
  assume le: "r \<le> of_int n"
  have fl: "\<lfloor>r\<rfloor> \<le> n" using le by (simp add: floor_le_iff) 
  show ?thesis
  proof (cases "r = of_int \<lfloor>r\<rfloor>")
    case True
    then have "r - of_int \<lfloor>r\<rfloor> = 0" by simp
    then have "round_half_even r = \<lfloor>r\<rfloor>" by (simp add: round_half_even_def Let_def)
    with fl show ?thesis by simp
  next
    case False
    have "of_int \<lfloor>r\<rfloor> \<le> r" by (rule of_int_floor_le)
    with False[symmetric] have "of_int \<lfloor>r\<rfloor> < r"
      by (rule order.not_eq_order_implies_strict)
    then have "(of_int \<lfloor>r\<rfloor> :: rat) < of_int n" using le by (rule less_le_trans)
    then have "\<lfloor>r\<rfloor> < n" by simp
    then have "\<lfloor>r\<rfloor> + 1 \<le> n" by simp
    with fl show ?thesis by (simp add: round_half_even_def Let_def)
  qed
qed

lemma round_half_even_ge: "of_int n \<le> r \<Longrightarrow> n \<le> round_half_even r"
proof -
  assume "of_int n \<le> r"
  then have "n \<le> \<lfloor>r\<rfloor>" by (simp add: le_floor_iff)
  then show ?thesis by (simp add: round_half_even_def Let_def)
qed

lemma round_half_even_abs: "\<bar>r\<bar> \<le> of_int n \<Longrightarrow> \<bar>round_half_even r\<bar> \<le> n"
proof -
  assume a: "\<bar>r\<bar> \<le> of_int n"
  then have "r \<le> of_int n" "of_int (- n) \<le> r" by simp_all
  then have "round_half_even r \<le> n" "- n \<le> round_half_even r"
    by (simp_all add: round_half_even_le round_half_even_ge)
  then show ?thesis by simp
qed

lemma pow2_int: "0 \<le> k \<Longrightarrow> pow2 k = of_int (2 ^ nat k)"
  by (simp add: pow2_def)

lemma round32_bound:
  assumes x: "\<bar>x\<bar> \<le> pow2 k" and k: "- 149 \<le> k" "k \<le> 127"
  shows "\<bar>round32 x\<bar> \<le> pow2 k"
proof -
  define e where "e = binade \<bar>x\<bar>"
  define q where "q = pow2 (e - 23)"
  have qpos: "0 < q" by (simp add: q_def pow2_pos)
  have "pow2 k \<le> pow2 127" using k by (intro pow2_mono)
  also have "pow2 127 < pow2 128" by (rule pow2_strict_mono) simp
  finally have xlt: "\<bar>x\<bar> < pow2 128" using x by simp
  have ek: "e - 23 \<le> k"
  proof (cases "pow2 (- 126) \<le> \<bar>x\<bar>")
    case True
    then have "pow2 e \<le> \<bar>x\<bar>" unfolding e_def by (rule binade_lower)
    with x have "pow2 e \<le> pow2 k" by simp
    then have "e \<le> k" by (simp add: pow2_le_iff)
    then show ?thesis by simp
  next
    case False
    then have "e = - 126" by (simp add: e_def binade_def)
    with k show ?thesis by simp
  qed
  define N where "N = (2::int) ^ nat (k - (e - 23))"
  have "pow2 k = pow2 (k - (e - 23)) * pow2 (e - 23)"
    using pow2_add[of "k - (e - 23)" "e - 23"] by simp
  also have "pow2 (k - (e - 23)) = of_int N"
    using ek by (simp add: pow2_int N_def)
  finally have kN: "pow2 k = of_int N * q" by (simp add: q_def)
  have "\<bar>x / q\<bar> = \<bar>x\<bar> / q" using qpos by simp
  also have "\<dots> \<le> of_int N" using x kN qpos by (simp add: pos_divide_le_eq)
  finally have "\<bar>round_half_even (x / q)\<bar> \<le> N" by (rule round_half_even_abs)
  then have "\<bar>of_int (round_half_even (x / q)) :: rat\<bar> \<le> of_int N"
    by (metis of_int_abs of_int_le_iff)
  then have "\<bar>of_int (round_half_even (x / q)) * q\<bar> \<le> of_int N * q"
    using qpos by (simp add: abs_mult)
  then show ?thesis
    by (simp add: round32_def quantum_def kN e_def[symmetric] q_def[symmetric])
qed

lemma to_float_bounded:
  assumes "\<bar>x\<bar> \<le> pow2 k" "- 149 \<le> k" "k \<le> 127"
  shows "bounded k (to_float x)"
proof -
  have r: "\<bar>round32 x\<bar> \<le> pow2 k" using assms by (rule round32_bound)
  have "pow2 k \<le> pow2 127" using assms(3) by (intro pow2_mono)
  also have "pow2 127 < pow2 128" by (rule pow2_strict_mono) simp
  finally have "\<bar>round32 x\<bar> < pow2 128" using r by simp
  then have "\<not> pow2 128 \<le> round32 x" "\<not> round32 x \<le> - pow2 128" by simp_all
  with r show ?thesis
    by (auto simp add: to_float_def Let_def bounded_def pow2_pos less_imp_le)
qed

lemma bounded_mono: "bounded i a \<Longrightarrow> i \<le> j \<Longrightarrow> bounded j a"
  using pow2_mono[of i j] by (auto simp add: bounded_def)

lemma bounded_Finite_0: "bounded k (Finite 0)"
  by (simp add: bounded_def pow2_pos less_imp_le)

lemma bounded_NegZero: "bounded k NegZero"
  by (simp add: bounded_def pow2_pos less_imp_le)

lemma bounded_signed_zero: "bounded k (signed_zero s)"
  by (simp add: signed_zero_def bounded_Finite_0 bounded_NegZero)

lemma bounded_flags: "bounded k a \<Longrightarrow> \<not> is_nan a \<and> \<not> is_inf a \<and> is_finite a"
  by (cases a) (auto simp add: bounded_def)

lemma flit_bounded:
  "\<bar>q\<bar> \<le> pow2 k \<Longrightarrow> - 149 \<le> k \<Longrightarrow> k \<le> 127 \<Longrightarrow> bounded k (flit q)"
  by (simp add: flit_def bounded_Finite_0 to_float_bounded)

lemma float_of_int_bounded:
  "\<bar>i\<bar> \<le> 2 ^ n \<Longrightarrow> n \<le> 127 \<Longrightarrow> bounded (int n) (float_of_int i)"
proof -
  assume a: "\<bar>i\<bar> \<le> 2 ^ n" and n: "n \<le> 127"
  have "\<bar>rat_of_int i\<bar> = rat_of_int \<bar>i\<bar>" by simp
  also have "\<dots> \<le> rat_of_int (2 ^ n)" using a by (simp only: of_int_le_iff)
  also have "\<dots> = pow2 (int n)" by (simp add: pow2_nat)
  finally show ?thesis unfolding float_of_int_def using n by (intro flit_bounded) simp_all
qed

lemma fneg_bounded: "bounded k a \<Longrightarrow> bounded k (fneg a)"
  by (cases a) (auto simp add: bounded_def pow2_pos less_imp_le)

lemma fadd_bounded:
  assumes a: "bounded i a" and b: "bounded i b" and i: "- 150 \<le> i" "i \<le> 126"
  shows "bounded (i + 1) (fadd a b)"
proof -
  from a b have fl: "\<not> is_nan a" "\<not> is_nan b" "\<not> is_inf a" "\<not> is_inf b"
    by (simp_all add: bounded_flags)
  from a b have "\<bar>fval a + fval b\<bar> \<le> pow2 i + pow2 i"
    by (simp add: bounded_def abs_triangle_ineq[THEN order_trans] add_mono)
  also have "\<dots> = pow2 (i + 1)" by (simp add: pow2_Suc)
  finally have s: "\<bar>fval a + fval b\<bar> \<le> pow2 (i + 1)" .
  show ?thesis
  proof (cases "fval a + fval b = 0")
    case True
    with fl show ?thesis
      by (simp add: fadd_def bounded_signed_zero bounded_Finite_0)
  next
    case False
    with fl have "fadd a b = to_float (fval a + fval b)" by (simp add: fadd_def)
    with s i show ?thesis by (simp add: to_float_bounded)
  qed
qed

lemma fsub_bounded:
  "bounded i a \<Longrightarrow> bounded i b \<Longrightarrow> - 150 \<le> i \<Longrightarrow> i \<le> 126 \<Longrightarrow> bounded (i + 1) (fsub a b)"
  unfolding fsub_def by (rule fadd_bounded) (simp_all add: fneg_bounded)

lemma fmul_bounded:
  assumes a: "bounded i a" and b: "bounded j b" and k: "- 149 \<le> i + j" "i + j \<le> 127"
  shows "bounded (i + j) (fmul a b)"
proof -
  from a b have fl: "\<not> is_nan a" "\<not> is_nan b" "\<not> is_inf a" "\<not> is_inf b"
    by (simp_all add: bounded_flags)
  have "\<bar>fval a * fval b\<bar> = \<bar>fval a\<bar> * \<bar>fval b\<bar>" by (rule abs_mult)
  also have "\<dots> \<le> pow2 i * pow2 j"
    using a b by (intro mult_mono) (simp_all add: bounded_def pow2_pos less_imp_le)
  also have "\<dots> = pow2 (i + j)" by (simp add: pow2_add)
  finally have s: "\<bar>fval a * fval b\<bar> \<le> pow2 (i + j)" .
  show ?thesis
  proof (cases "fval a * fval b = 0")
    case True
    with fl show ?thesis by (simp add: fmul_def bounded_signed_zero)
  next
    case False
    with fl have "fmul a b = to_float (fval a * fval b)" by (simp add: fmul_def)
    with s k show ?thesis by (simp add: to_float_bounded)
  qed
qed

lemma fdiv_bounded:
  assumes a: "bounded i a" and b: "is_finite b" "pow2 j \<le> \<bar>fval b\<bar>"
    and k: "- 149 \<le> i - j" "i - j \<le> 127"
  shows "bounded (i - j) (fdiv a b)"
proof -
  from a have fa: "\<not> is_nan a" "\<not> is_inf a" by (simp_all add: bounded_flags)
  from b(2) pow2_pos[of j] have nz: "fval b \<noteq> 0" by auto
  with b(1) have fb: "\<not> is_nan b" "\<not> is_inf b" "\<not> is_zero b" by (cases b; simp)+
  show ?thesis
  proof (cases "is_zero a")
    case True
    with fa fb show ?thesis by (simp add: fdiv_def bounded_signed_zero)
  next
    case False
    with fa fb have eq: "fdiv a b = to_float (fval a / fval b)" by (simp add: fdiv_def)
    have "\<bar>fval a / fval b\<bar> = \<bar>fval a\<bar> / \<bar>fval b\<bar>" by (rule abs_divide)
    also have "\<dots> \<le> pow2 i / pow2 j"
      using a b(2) pow2_pos[of j] pow2_pos[of i]
      by (intro frac_le) (simp_all add: bounded_def less_imp_le)
    also have "\<dots> = pow2 (i - j)"
      using pow2_add[of "i - j" j] pow2_pos[of j] by simp
    finally have "\<bar>fval a / fval b\<bar> \<le> pow2 (i - j)" .
    with k eq show ?thesis by (simp add: to_float_bounded)
  qed
qed

lemma floor_rat_numeral [simp]:
  "\<lfloor>numeral a / numeral b :: rat\<rfloor> = numeral a div numeral b"
  by (metis floor_divide_of_int_eq of_int_numeral)

lemma floor_rat_neg_numeral [simp]:
  "\<lfloor>- (numeral a / numeral b) :: rat\<rfloor> = - numeral a div numeral b"
  by (metis divide_minus_left floor_divide_of_int_eq of_int_neg_numeral of_int_numeral)

lemma ceiling_rat_neg_numeral [simp]:
  "\<lceil>- (numeral a / numeral b) :: rat\<rceil> = - (numeral a div numeral b)"
  by (simp add: ceiling_def)

lemmas float_eval =
  to_float_def round32_def quantum_def binade_def pow2_def round_half_even_def Let_def
  flit_def float_of_int_def fdiv_def fmul_def fadd_def fsub_def signed_zero_def signed_inf_def
  eval_nat_numeral

lemma flit_exact:
  "flit 0 = Finite 0" "flit 1 = Finite 1" "flit 2 = Finite 2" "flit 4 = Finite 4"
  "flit 16 = Finite 16" "flit 32 = Finite 32" "flit 64 = Finite 64" "flit 100 = Finite 100"
  "flit 1024 = Finite 1024" "flit 4096 = Finite 4096" "flit 5120 = Finite 5120"
  "flit 6250 = Finite 6250" "flit 8192 = Finite 8192" "flit 16384 = Finite 16384"
  "flit 32768 = Finite 32768" "flit 64000 = Finite 64000" "flit 65536 = Finite 65536"
  "flit 76800 = Finite 76800" "flit 131072 = Finite 131072" "flit 524288 = Finite 524288"
  "flit 1048576 = Finite 1048576" "flit 67108864 = Finite 67108864"
  "flit 2147483648 = Finite 2147483648"
  by (simp_all add: float_eval)

lemma flit_1_8: "flit (9 / 5) = Finite (7549747 / 4194304)"
  by (simp add: float_eval)

lemma fdiv_lit_bounded:
  assumes "bounded i a" "flit c = Finite c" "pow2 j \<le> \<bar>c\<bar>" "- 149 \<le> i - j" "i - j \<le> 127"
  shows "bounded (i - j) (fdiv a (flit c))"
  using assms by (intro fdiv_bounded) simp_all

lemma sint_take_bit:
  fixes w :: "'a::len word"
  assumes "w = take_bit n w" and "n < LENGTH('a)"
  shows "0 \<le> sint w \<and> sint w < 2 ^ n"
proof -
  have "take_bit n (uint w) < 2 ^ n"
    by (rule take_bit_int_less_exp)
  then have "uint (take_bit n w) < 2 ^ n"
    by (simp only: unsigned_take_bit_eq)
  with assms have u: "uint w < 2 ^ n" by simp
  have p: "(2::int) ^ n \<le> 2 ^ (LENGTH('a) - Suc 0)"
    using assms(2) by (intro power_increasing) simp_all
  have u': "uint w < 2 ^ (LENGTH('a) - Suc 0)"
    using u p by (rule less_le_trans)
  have "sint w = signed_take_bit (LENGTH('a) - Suc 0) (uint w)"
    by (simp add: sint_uint)
  also have "\<dots> = uint w"
  proof (rule signed_take_bit_int_eq_self)
    have "- (2 ^ (LENGTH('a) - Suc 0)) \<le> (0::int)" by simp
    also have "0 \<le> uint w" by simp
    finally show "- (2 ^ (LENGTH('a) - Suc 0)) \<le> uint w" .
    from u' show "uint w < 2 ^ (LENGTH('a) - Suc 0)" .
  qed
  finally show ?thesis using u by simp
qed

lemma adc_t_range: "0 \<le> sint (adc_t_of buf) \<and> sint (adc_t_of buf) < 2 ^ 20"
proof (rule sint_take_bit)
  show "adc_t_of buf = take_bit 20 (adc_t_of buf)"
    unfolding adc_t_of_def
    by (rule bit_word_eqI) (auto simp add: bit_simps not_le not_less dest: bit_imp_le_length)
qed simp

lemma adc_p_range: "0 \<le> sint (adc_p_of buf) \<and> sint (adc_p_of buf) < 2 ^ 20"
proof (rule sint_take_bit)
  show "adc_p_of buf = take_bit 20 (adc_p_of buf)"
    unfolding adc_p_of_def
    by (rule bit_word_eqI) (auto simp add: bit_simps not_le not_less dest: bit_imp_le_length)
qed simp

lemma adc_h_range: "0 \<le> sint (adc_h_of buf) \<and> sint (adc_h_of buf) < 2 ^ 16"
proof (rule sint_take_bit)
  show "adc_h_of buf = take_bit 16 (adc_h_of buf)"
    unfolding adc_h_of_def
    by (rule bit_word_eqI) (auto simp add: bit_simps not_le not_less dest: bit_imp_le_length)
qed simp

lemma sint16_abs: "\<bar>sint (w :: 16 word)\<bar> \<le> 2 ^ 15"
  using sint_ge[of w] sint_lt[of w] by simp

lemma sint8_abs: "\<bar>sint (w :: 8 word)\<bar> \<le> 2 ^ 7"
  using sint_ge[of w] sint_lt[of w] by simp

lemma uint16_abs: "\<bar>uint (w :: 16 word)\<bar> \<le> 2 ^ 16"
  using uint_lt2p[of w] by simp

lemma uint8_abs: "\<bar>uint (w :: 8 word)\<bar> \<le> 2 ^ 8"
  using uint_lt2p[of w] by simp

text \<open>
  Rounding moves a result by at most half the spacing of the binary32 numbers around
  it.
\<close>

lemma round_half_even_error: "\<bar>of_int (round_half_even r) - r\<bar> \<le> 1 / 2"
proof -
  define d where "d = r - of_int \<lfloor>r\<rfloor>"
  have d0: "0 \<le> d" and d1: "d < 1"
    unfolding d_def by linarith+
  have r: "r = of_int \<lfloor>r\<rfloor> + d" by (simp add: d_def)
  consider "d < 1 / 2" | "1 / 2 < d" | "d = 1 / 2" by linarith
  then show ?thesis
  proof cases
    case 1
    then have "round_half_even r = \<lfloor>r\<rfloor>"
      by (simp add: round_half_even_def Let_def d_def)
    then have "of_int (round_half_even r) - r = - d" by (simp add: d_def)
    with 1 d0 show ?thesis by simp
  next
    case 2
    then have "round_half_even r = \<lfloor>r\<rfloor> + 1"
      by (simp add: round_half_even_def Let_def d_def)
    then have "of_int (round_half_even r) - r = 1 - d" by (simp add: d_def)
    with 2 d1 show ?thesis by simp
  next
    case 3
    then have "round_half_even r = \<lfloor>r\<rfloor> \<or> round_half_even r = \<lfloor>r\<rfloor> + 1"
      by (simp add: round_half_even_def Let_def d_def)
    then have "of_int (round_half_even r) - r = - d \<or> of_int (round_half_even r) - r = 1 - d"
      by (auto simp add: d_def)
    with 3 show ?thesis by auto
  qed
qed

lemma quantum_pos: "0 < quantum x"
  by (simp add: quantum_def pow2_pos)

lemma round32_error: "\<bar>round32 x - x\<bar> \<le> quantum x / 2"
proof -
  have "round32 x - x = (of_int (round_half_even (x / quantum x)) - x / quantum x) * quantum x"
    using quantum_pos[of x] by (simp add: round32_def algebra_simps)
  then have "\<bar>round32 x - x\<bar>
      = \<bar>of_int (round_half_even (x / quantum x)) - x / quantum x\<bar> * quantum x"
    using quantum_pos[of x] by (simp add: abs_mult)
  also have "\<dots> \<le> 1 / 2 * quantum x"
    using round_half_even_error[of "x / quantum x"] quantum_pos[of x]
    by (intro mult_right_mono) simp_all
  finally show ?thesis by simp
qed

lemma binade_le:
  assumes "a \<le> pow2 k" "- 126 \<le> k"
  shows "binade a \<le> k"
proof (cases "a < pow2 (- 126)")
  case True
  with assms show ?thesis by (simp add: binade_def)
next
  case False
  then have "pow2 (binade a) \<le> a" by (intro binade_lower) simp
  with assms(1) have "pow2 (binade a) \<le> pow2 k" by simp
  then show ?thesis by (simp add: pow2_le_iff)
qed

lemma to_float_error:
  assumes "\<bar>x\<bar> \<le> pow2 k" "- 126 \<le> k" "k \<le> 127"
  shows "\<bar>fval (to_float x) - x\<bar> \<le> pow2 (k - 24)"
proof -
  have r: "\<bar>round32 x\<bar> \<le> pow2 k" using assms by (intro round32_bound) simp_all
  have "pow2 k \<le> pow2 127" using assms(3) by (intro pow2_mono)
  also have "pow2 127 < pow2 128" by (rule pow2_strict_mono) simp
  finally have "\<bar>round32 x\<bar> < pow2 128" using r by simp
  then have "\<not> pow2 128 \<le> round32 x" "\<not> round32 x \<le> - pow2 128" by simp_all
  then have v: "fval (to_float x) = round32 x"
    by (auto simp add: to_float_def Let_def)
  have "binade \<bar>x\<bar> - 23 \<le> k - 23" using binade_le[OF assms(1,2)] by simp
  then have "quantum x \<le> pow2 (k - 23)" unfolding quantum_def by (rule pow2_mono)
  then have "quantum x / 2 \<le> pow2 (k - 23) / 2" by simp
  also have "\<dots> = pow2 (k - 24)" using pow2_diff1[of "k - 23"] by simp
  finally show ?thesis using round32_error[of x] v by simp
qed

lemma fmul_error:
  assumes a: "bounded i a" and b: "bounded j b" and k: "- 126 \<le> i + j" "i + j \<le> 127"
  shows "\<bar>fval (fmul a b) - fval a * fval b\<bar> \<le> pow2 (i + j - 24)"
proof -
  from a b have fl: "\<not> is_nan a" "\<not> is_nan b" "\<not> is_inf a" "\<not> is_inf b"
    by (simp_all add: bounded_flags)
  have "\<bar>fval a * fval b\<bar> = \<bar>fval a\<bar> * \<bar>fval b\<bar>" by (rule abs_mult)
  also have "\<dots> \<le> pow2 i * pow2 j"
    using a b by (intro mult_mono) (simp_all add: bounded_def pow2_pos less_imp_le)
  also have "\<dots> = pow2 (i + j)" by (simp add: pow2_add)
  finally have s: "\<bar>fval a * fval b\<bar> \<le> pow2 (i + j)" .
  show ?thesis
  proof (cases "fval a * fval b = 0")
    case True
    with fl have "fval (fmul a b) = 0" by (simp add: fmul_def signed_zero_def)
    then have "fval (fmul a b) - fval a * fval b = 0" using True by simp
    then show ?thesis using pow2_pos[of "i + j - 24"] by simp
  next
    case False
    with fl have eq: "fmul a b = to_float (fval a * fval b)" by (simp add: fmul_def)
    from to_float_error[OF s k] show ?thesis by (simp only: eq)
  qed
qed

lemma fadd_error:
  assumes a: "bounded i a" and b: "bounded i b" and i: "- 127 \<le> i" "i \<le> 126"
  shows "\<bar>fval (fadd a b) - (fval a + fval b)\<bar> \<le> pow2 (i + 1 - 24)"
proof -
  from a b have fl: "\<not> is_nan a" "\<not> is_nan b" "\<not> is_inf a" "\<not> is_inf b"
    by (simp_all add: bounded_flags)
  from a b have "\<bar>fval a + fval b\<bar> \<le> pow2 i + pow2 i"
    by (simp add: bounded_def abs_triangle_ineq[THEN order_trans] add_mono)
  also have "\<dots> = pow2 (i + 1)" by (simp add: pow2_Suc)
  finally have s: "\<bar>fval a + fval b\<bar> \<le> pow2 (i + 1)" .
  show ?thesis
  proof (cases "fval a + fval b = 0")
    case True
    with fl have "fval (fadd a b) = 0" by (simp add: fadd_def signed_zero_def)
    then have "fval (fadd a b) - (fval a + fval b) = 0" using True by simp
    then show ?thesis using pow2_pos[of "i + 1 - 24"] by simp
  next
    case False
    with fl have eq: "fadd a b = to_float (fval a + fval b)" by (simp add: fadd_def)
    from i have "- 126 \<le> i + 1" "i + 1 \<le> 127" by simp_all
    from to_float_error[OF s this] show ?thesis by (simp only: eq)
  qed
qed

section \<open>The compensation formulas stay finite\<close>

lemma temp_sum_bounded:
  assumes "0 \<le> sint adc_t" "sint adc_t < 2 ^ 20"
  shows "bounded 24 (temp_sum T adc_t)"
proof -
  let ?A = "float_of_int (sint adc_t)"
  let ?T1 = "float_of_int (uint (dig_T1 T))"
  have A: "bounded 20 ?A"
    using assms float_of_int_bounded[of "sint adc_t" 20] by simp
  have T1: "bounded 16 ?T1"
    using float_of_int_bounded[OF uint16_abs, of "dig_T1 T"] by simp
  have T2: "bounded 15 (float_of_int (sint (dig_T2 T)))"
    using float_of_int_bounded[OF sint16_abs, of "dig_T2 T"] by simp
  have T3: "bounded 15 (float_of_int (sint (dig_T3 T)))"
    using float_of_int_bounded[OF sint16_abs, of "dig_T3 T"] by simp
  have a1: "bounded 6 (fdiv ?A (flit 16384))"
    using fdiv_lit_bounded[OF A, of 16384 14] by (simp add: flit_exact pow2_def)
  have b1: "bounded 6 (fdiv ?T1 (flit 1024))"
    using fdiv_lit_bounded[OF T1, of 1024 10] by (simp add: flit_exact pow2_def)
  have c1: "bounded 7 (fsub (fdiv ?A (flit 16384)) (fdiv ?T1 (flit 1024)))"
    using fsub_bounded[OF a1 b1] by simp
  have var1: "bounded 22 (temp_var1 T adc_t)"
    unfolding temp_var1_def using fmul_bounded[OF c1 T2] by simp
  have a2: "bounded 3 (fdiv ?A (flit 131072))"
    using fdiv_lit_bounded[OF A, of 131072 17] by (simp add: flit_exact pow2_def)
  have b2: "bounded 3 (fdiv ?T1 (flit 8192))"
    using fdiv_lit_bounded[OF T1, of 8192 13] by (simp add: flit_exact pow2_def)
  have c2: "bounded 4 (fsub (fdiv ?A (flit 131072)) (fdiv ?T1 (flit 8192)))"
    using fsub_bounded[OF a2 b2] by simp
  have d2: "bounded 8 (fmul (fsub (fdiv ?A (flit 131072)) (fdiv ?T1 (flit 8192)))
                            (fsub (fdiv ?A (flit 131072)) (fdiv ?T1 (flit 8192))))"
    using fmul_bounded[OF c2 c2] by simp
  have var2: "bounded 23 (temp_var2 T adc_t)"
    unfolding temp_var2_def using fmul_bounded[OF d2 T3] by simp
  from var1 have var1': "bounded 23 (temp_var1 T adc_t)" by (rule bounded_mono) simp
  show ?thesis
    unfolding temp_sum_def using fadd_bounded[OF var1' var2] by simp
qed

lemma trunc_zero_abs: "\<bar>r\<bar> \<le> of_int n \<Longrightarrow> \<bar>trunc_zero r\<bar> \<le> n"
proof -
  assume a: "\<bar>r\<bar> \<le> of_int n"
  show ?thesis
  proof (cases "0 \<le> r")
    case True
    then have "0 \<le> \<lfloor>r\<rfloor>" by simp
    moreover from a True have "\<lfloor>r\<rfloor> \<le> n" by (simp add: floor_le_iff)
    ultimately show ?thesis using True by (simp add: trunc_zero_def)
  next
    case False
    then have "\<lceil>r\<rceil> \<le> 0" by (simp add: ceiling_le_iff)
    moreover from a False have "- n \<le> \<lceil>r\<rceil>" by (simp add: le_ceiling_iff)
    ultimately show ?thesis using False by (simp add: trunc_zero_def)
  qed
qed

lemma int32_of_float_bounded:
  assumes "bounded 24 x"
  shows "\<exists>tf. int32_of_float x = Some tf \<and> sint tf = trunc_zero (fval x) \<and> \<bar>sint tf\<bar> \<le> 2 ^ 24"
proof -
  from assms have f: "is_finite x" and "\<bar>fval x\<bar> \<le> pow2 24" by (simp_all add: bounded_def)
  then have "\<bar>fval x\<bar> \<le> of_int (2 ^ 24)" by (simp add: pow2_def)
  then have t: "\<bar>trunc_zero (fval x)\<bar> \<le> 2 ^ 24" by (rule trunc_zero_abs)
  then have r: "- (2 ^ 31) \<le> trunc_zero (fval x)" "trunc_zero (fval x) < 2 ^ 31" by simp_all
  have "sint (word_of_int (trunc_zero (fval x)) :: 32 word)
          = signed_take_bit 31 (trunc_zero (fval x))"
    by (simp add: sint_sbintrunc')
  also have "\<dots> = trunc_zero (fval x)"
    using r by (intro signed_take_bit_int_eq_self) simp_all
  finally have "sint (word_of_int (trunc_zero (fval x)) :: 32 word) = trunc_zero (fval x)" .
  with f r t show ?thesis by (simp add: int32_of_float_def)
qed

lemma bounded_Finite: "\<bar>r\<bar> \<le> pow2 k \<Longrightarrow> bounded k (Finite r)"
  by (simp add: bounded_def)

lemma humidity_formula_bounded:
  assumes tf: "\<bar>sint tf\<bar> \<le> 2 ^ 24" and adc: "0 \<le> sint adc_h" "sint adc_h < 2 ^ 16"
  shows "bounded 74 (humidity_formula H tf adc_h)"
proof -
  define v where "v = fsub (float_of_int (sint tf)) (flit 76800)"
  have one: "bounded k (flit 1)" if "0 \<le> k" for k
    using that pow2_mono[of 0 k] by (simp add: flit_exact bounded_def pow2_0)
  have TF: "bounded 24 (float_of_int (sint tf))"
    using float_of_int_bounded[OF tf] by simp
  have "bounded 24 (flit 76800)"
    by (simp add: flit_exact bounded_def pow2_def)
  with TF have v: "bounded 25 v"
    unfolding v_def using fsub_bounded[of 24] by simp
  have H1: "bounded 8 (float_of_int (uint (dig_H1 H)))"
    using float_of_int_bounded[OF uint8_abs, of "dig_H1 H"] by simp
  have H2: "bounded 15 (float_of_int (sint (dig_H2 H)))"
    using float_of_int_bounded[OF sint16_abs, of "dig_H2 H"] by simp
  have H3: "bounded 8 (float_of_int (uint (dig_H3 H)))"
    using float_of_int_bounded[OF uint8_abs, of "dig_H3 H"] by simp
  have H4: "bounded 15 (float_of_int (sint (dig_H4 H)))"
    using float_of_int_bounded[OF sint16_abs, of "dig_H4 H"] by simp
  have H5: "bounded 15 (float_of_int (sint (dig_H5 H)))"
    using float_of_int_bounded[OF sint16_abs, of "dig_H5 H"] by simp
  have H6: "bounded 7 (float_of_int (sint (dig_H6 H)))"
    using float_of_int_bounded[OF sint8_abs, of "dig_H6 H"] by simp
  have ADC: "bounded 16 (float_of_int (sint adc_h))"
    using adc float_of_int_bounded[of "sint adc_h" 16] by simp
  \<comment> \<open>the left factor\<close>
  have "bounded 6 (flit 64)" by (simp add: flit_exact bounded_def pow2_def)
  with H4 have l1: "bounded 21 (fmul (float_of_int (sint (dig_H4 H))) (flit 64))"
    using fmul_bounded[of 15 _ 6] by simp
  have l2: "bounded 1 (fdiv (float_of_int (sint (dig_H5 H))) (flit 16384))"
    using fdiv_lit_bounded[OF H5, of 16384 14] by (simp add: flit_exact pow2_def)
  have l3: "bounded 26 (fmul (fdiv (float_of_int (sint (dig_H5 H))) (flit 16384)) v)"
    using fmul_bounded[OF l2 v] by simp
  from l1 have l1': "bounded 26 (fmul (float_of_int (sint (dig_H4 H))) (flit 64))"
    by (rule bounded_mono) simp
  have l4: "bounded 27 (fadd (fmul (float_of_int (sint (dig_H4 H))) (flit 64))
                             (fmul (fdiv (float_of_int (sint (dig_H5 H))) (flit 16384)) v))"
    using fadd_bounded[OF l1' l3] by simp
  from ADC have ADC': "bounded 27 (float_of_int (sint adc_h))" by (rule bounded_mono) simp
  define L where "L = fsub (float_of_int (sint adc_h))
                       (fadd (fmul (float_of_int (sint (dig_H4 H))) (flit 64))
                             (fmul (fdiv (float_of_int (sint (dig_H5 H))) (flit 16384)) v))"
  have L: "bounded 28 L"
    unfolding L_def using fsub_bounded[OF ADC' l4] by simp
  \<comment> \<open>the right factor\<close>
  have r1: "bounded (- 1) (fdiv (float_of_int (sint (dig_H2 H))) (flit 65536))"
    using fdiv_lit_bounded[OF H2, of 65536 16] by (simp add: flit_exact pow2_def)
  have r2: "bounded (- 19) (fdiv (float_of_int (sint (dig_H6 H))) (flit 67108864))"
    using fdiv_lit_bounded[OF H6, of 67108864 26] by (simp add: flit_exact pow2_def)
  have r3: "bounded 6 (fmul (fdiv (float_of_int (sint (dig_H6 H))) (flit 67108864)) v)"
    using fmul_bounded[OF r2 v] by simp
  have r4: "bounded (- 18) (fdiv (float_of_int (uint (dig_H3 H))) (flit 67108864))"
    using fdiv_lit_bounded[OF H3, of 67108864 26] by (simp add: flit_exact pow2_def)
  have r5: "bounded 7 (fmul (fdiv (float_of_int (uint (dig_H3 H))) (flit 67108864)) v)"
    using fmul_bounded[OF r4 v] by simp
  define Q where "Q = fadd (flit 1) (fmul (fdiv (float_of_int (uint (dig_H3 H))) (flit 67108864)) v)"
  have Q: "bounded 8 Q"
    unfolding Q_def using fadd_bounded[OF one[of 7] r5] by simp
  define P where "P = fmul (fmul (fdiv (float_of_int (sint (dig_H6 H))) (flit 67108864)) v) Q"
  have P: "bounded 14 P"
    unfolding P_def using fmul_bounded[OF r3 Q] by simp
  define R where "R = fmul (fdiv (float_of_int (sint (dig_H2 H))) (flit 65536)) (fadd (flit 1) P)"
  have "bounded 15 (fadd (flit 1) P)"
    using fadd_bounded[OF one[of 14] P] by simp
  then have R: "bounded 14 R"
    unfolding R_def using fmul_bounded[OF r1, of 15] by simp
  define w where "w = fmul L R"
  have w: "bounded 42 w"
    unfolding w_def using fmul_bounded[OF L R] by simp
  \<comment> \<open>the result\<close>
  have e1: "bounded 50 (fmul (float_of_int (uint (dig_H1 H))) w)"
    using fmul_bounded[OF H1 w] by simp
  have e2: "bounded 31 (fdiv (fmul (float_of_int (uint (dig_H1 H))) w) (flit 524288))"
    using fdiv_lit_bounded[OF e1, of 524288 19] by (simp add: flit_exact pow2_def)
  have e3: "bounded 32 (fsub (flit 1) (fdiv (fmul (float_of_int (uint (dig_H1 H))) w) (flit 524288)))"
    using fsub_bounded[OF one[of 31] e2] by simp
  have "bounded 74 (fmul w (fsub (flit 1) (fdiv (fmul (float_of_int (uint (dig_H1 H))) w) (flit 524288))))"
    using fmul_bounded[OF w e3] by simp
  then show ?thesis
    by (simp add: humidity_formula_def Let_def w_def L_def R_def P_def Q_def v_def)
qed

section \<open>What bme280\_read\_data returns\<close>

lemma clamp_humidity_cases:
  assumes "is_finite h"
  shows "clamp_humidity h =
           (if 100 < fval h then Finite 100 else if fval h < 0 then Finite 0 else h)"
  using assms by (cases h) (simp_all add: clamp_humidity_def fgt_def flit_exact)

lemma clamp_humidity_range:
  assumes "is_finite h"
  shows "is_finite (clamp_humidity h) \<and> 0 \<le> fval (clamp_humidity h) \<and> fval (clamp_humidity h) \<le> 100"
  using assms by (simp add: clamp_humidity_cases)

lemma temp_sum_cast:
  "\<exists>tf. int32_of_float (temp_sum T (adc_t_of buf)) = Some tf \<and>
        sint tf = trunc_zero (fval (temp_sum T (adc_t_of buf))) \<and> \<bar>sint tf\<bar> \<le> 2 ^ 24"
  using adc_t_range[of buf] by (intro int32_of_float_bounded temp_sum_bounded) simp_all

lemma read_data_defined:
  "\<exists>e ctx' data' w'. bme280_read_data w ctx data = Some (e, ctx', data', w')"
proof (cases ctx)
  case None
  then show ?thesis by (simp add: bme280_read_data_def)
next
  case (Some c)
  show ?thesis
  proof (cases data)
    case None
    with Some show ?thesis by (simp add: bme280_read_data_def)
  next
    case (Some d)
    obtain r w1 where wr: "sys_write w (fd c) [BME280_REG_DATA] = (r, w1)"
      by (cases "sys_write w (fd c) [BME280_REG_DATA]")
    obtain ret buf w2 where rd: "sys_read w1 (fd c) 8 = (ret, buf, w2)"
      by (cases "sys_read w1 (fd c) 8") auto
    obtain tf where "int32_of_float (temp_sum (temp (calib c)) (adc_t_of buf)) = Some tf"
      using temp_sum_cast by blast
    with \<open>ctx = Some c\<close> Some wr rd show ?thesis
      by (simp add: bme280_read_data_def Let_def)
  qed
qed

lemma read_data_error:
  assumes "bme280_read_data w ctx data = Some (e, ctx', data', w')" and "e \<noteq> BME280_OK"
  shows "data' = data \<and> ctx' = ctx"
  using assms
  by (auto simp add: bme280_read_data_def Let_def
           split: option.splits prod.splits if_splits)

lemma read_data_ok:
  assumes "bme280_read_data w ctx data = Some (BME280_OK, ctx', data', w')"
  obtains c d c' d' w1 buf where
    "ctx = Some c" "data = Some d" "ctx' = Some c'" "data' = Some d'" "\<not> fd c < 0"
    "sys_write w (fd c) [BME280_REG_DATA] = (1, w1)" "sys_read w1 (fd c) 8 = (8, buf, w')"
    "int32_of_float (temp_sum (temp (calib c)) (adc_t_of buf)) = Some (t_fine c')"
    "temperature_c d' = fdiv (temp_sum (temp (calib c)) (adc_t_of buf)) (flit 5120)"
    "temperature_f d' = fadd (fmul (temperature_c d') (flit (9 / 5))) (flit 32)"
    "pressure_hpa d' = pressure_of (press (calib c)) (t_fine c') (adc_p_of buf)"
    "humidity_rh d' = clamp_humidity (humidity_formula (hum (calib c)) (t_fine c') (adc_h_of buf))"
  using assms
  by (auto simp add: bme280_read_data_def Let_def
           split: option.splits prod.splits if_splits)

lemma read_data_succeeds:
  assumes "\<not> fd c < 0" and "sys_write w (fd c) [BME280_REG_DATA] = (1, w1)"
    and "sys_read w1 (fd c) 8 = (8, buf, w2)"
    and "int32_of_float (temp_sum (temp (calib c)) (adc_t_of buf)) = Some tf"
  shows "bme280_read_data w (Some c) (Some d) =
           Some (BME280_OK, Some (c\<lparr>t_fine := tf\<rparr>),
                 Some (d\<lparr>temperature_c := fdiv (temp_sum (temp (calib c)) (adc_t_of buf)) (flit 5120),
                         temperature_f :=
                           fadd (fmul (fdiv (temp_sum (temp (calib c)) (adc_t_of buf)) (flit 5120))
                                      (flit (9 / 5)))
                                (flit 32),
                         pressure_hpa := pressure_of (press (calib c)) tf (adc_p_of buf),
                         humidity_rh :=
                           clamp_humidity (humidity_formula (hum (calib c)) tf (adc_h_of buf))\<rparr>),
                 w2)"
  using assms by (simp add: bme280_read_data_def Let_def)

lemma burst_run:
  assumes "length bytes = 8" and "fd c = 3"
  shows "\<exists>tf w'. int32_of_float (temp_sum (temp (calib c)) (adc_t_of bytes)) = Some tf \<and>
           bme280_read_data (burst_world bytes) (Some c) (Some d) =
             Some (BME280_OK, Some (c\<lparr>t_fine := tf\<rparr>),
                   Some (d\<lparr>temperature_c := fdiv (temp_sum (temp (calib c)) (adc_t_of bytes)) (flit 5120),
                           temperature_f :=
                             fadd (fmul (fdiv (temp_sum (temp (calib c)) (adc_t_of bytes)) (flit 5120))
                                        (flit (9 / 5)))
                                  (flit 32),
                           pressure_hpa := pressure_of (press (calib c)) tf (adc_p_of bytes),
                           humidity_rh :=
                             clamp_humidity (humidity_formula (hum (calib c)) tf (adc_h_of bytes))\<rparr>),
                   w')"
proof -
  obtain tf where tf: "int32_of_float (temp_sum (temp (calib c)) (adc_t_of bytes)) = Some tf"
    using temp_sum_cast by blast
  define w1 where "w1 = (burst_world bytes)\<lparr>write_script := [], written := [[BME280_REG_DATA]]\<rparr>"
  define w2 where "w2 = w1\<lparr>read_script := []\<rparr>"
  have wr: "sys_write (burst_world bytes) (fd c) [BME280_REG_DATA] = (1, w1)"
    using assms(2) by (simp add: sys_write_def burst_world_def w1_def)
  have rd: "sys_read w1 (fd c) 8 = (8, bytes, w2)"
    using assms by (simp add: sys_read_def burst_world_def w1_def w2_def)
  have "\<not> fd c < 0" using assms(2) by simp
  from read_data_succeeds[OF this wr rd tf] tf show ?thesis by blast
qed

lemma burst_read_eq:
  "sys_write w (fd c) [BME280_REG_DATA] = (r, w1) \<Longrightarrow> sys_read w1 (fd c) 8 = (ret, buf, w2)
     \<Longrightarrow> burst_read w c = buf"
  by (simp add: burst_read_def)

lemma burst_read_burst_world:
  "length bytes = 8 \<Longrightarrow> fd c = 3 \<Longrightarrow> burst_read (burst_world bytes) c = bytes"
  by (simp add: burst_read_def burst_world_def sys_write_def sys_read_def)

section \<open>The formulas on sample inputs\<close>

text \<open>
  Each step is one operation of the source on the values of the step before, rounded
  as the arithmetic defines it.
\<close>

lemma example_adc_t: "sint (adc_t_of [0x65, 0x5A, 0xC0, 0x7E, 0xED, 0x00, 0x80, 0x00]) = 519888"
  by (simp add: adc_t_of_def)

lemma freezing_adc_t: "sint (adc_t_of [0x65, 0x5A, 0xC0, 0x67, 0x90, 0x00, 0x80, 0x00]) = 424192"
  by (simp add: adc_t_of_def)

lemma example_temp_coeffs:
  "uint (dig_T1 (temp example_calib)) = 27504"
  "sint (dig_T2 (temp example_calib)) = 26435"
  "sint (dig_T3 (temp example_calib)) = - 1000"
  by (simp_all add: example_calib_def)

lemma example_temp_ints:
  "float_of_int 519888 = Finite 519888" "float_of_int 424192 = Finite 424192"
  "float_of_int 27504 = Finite 27504" "float_of_int 26435 = Finite 26435"
  "float_of_int (- 1000) = Finite (- 1000)"
  by (simp_all add: float_eval)

lemma example_temp_sum:
  "temp_sum (temp example_calib) (adc_t_of [0x65, 0x5A, 0xC0, 0x7E, 0xED, 0x00, 0x80, 0x00])
     = Finite (16438053 / 128)"
proof -
  have a1: "fdiv (Finite 519888) (Finite 16384) = Finite (32493 / 1024)"
    by (simp add: float_eval)
  have b1: "fdiv (Finite 27504) (Finite 1024) = Finite (1719 / 64)"
    by (simp add: float_eval)
  have c1: "fsub (Finite (32493 / 1024)) (Finite (1719 / 64)) = Finite (4989 / 1024)"
    by (simp add: float_eval)
  have var1: "fmul (Finite (4989 / 1024)) (Finite 26435) = Finite (16485527 / 128)"
    by (simp add: float_eval)
  have a2: "fdiv (Finite 519888) (Finite 131072) = Finite (32493 / 8192)"
    by (simp add: float_eval)
  have b2: "fdiv (Finite 27504) (Finite 8192) = Finite (1719 / 512)"
    by (simp add: float_eval)
  have c2: "fsub (Finite (32493 / 8192)) (Finite (1719 / 512)) = Finite (4989 / 8192)"
    by (simp add: float_eval)
  have d2: "fmul (Finite (4989 / 8192)) (Finite (4989 / 8192)) = Finite (3111265 / 8388608)"
    by (simp add: float_eval)
  have var2: "fmul (Finite (3111265 / 8388608)) (Finite (- 1000)) = Finite (- (12153379 / 32768))"
    by (simp add: float_eval)
  have s: "fadd (Finite (16485527 / 128)) (Finite (- (12153379 / 32768))) = Finite (16438053 / 128)"
    by (simp add: float_eval)
  show ?thesis
    by (simp only: temp_sum_def temp_var1_def temp_var2_def example_adc_t example_temp_coeffs
          example_temp_ints flit_exact a1 b1 c1 var1 a2 b2 c2 d2 var2 s)
qed

lemma example_celsius: "fdiv (Finite (16438053 / 128)) (flit 5120) = Finite (6575221 / 262144)"
  by (simp add: flit_exact) (simp add: float_eval)

lemma freezing_temp_sum:
  "temp_sum (temp example_calib) (adc_t_of [0x65, 0x5A, 0xC0, 0x67, 0x90, 0x00, 0x80, 0x00])
     = Finite (- (3279817 / 128))"
proof -
  have a1: "fdiv (Finite 424192) (Finite 16384) = Finite (1657 / 64)"
    by (simp add: float_eval)
  have b1: "fdiv (Finite 27504) (Finite 1024) = Finite (1719 / 64)"
    by (simp add: float_eval)
  have c1: "fsub (Finite (1657 / 64)) (Finite (1719 / 64)) = Finite (- (31 / 32))"
    by (simp add: float_eval)
  have var1: "fmul (Finite (- (31 / 32))) (Finite 26435) = Finite (- (819485 / 32))"
    by (simp add: float_eval)
  have a2: "fdiv (Finite 424192) (Finite 131072) = Finite (1657 / 512)"
    by (simp add: float_eval)
  have b2: "fdiv (Finite 27504) (Finite 8192) = Finite (1719 / 512)"
    by (simp add: float_eval)
  have c2: "fsub (Finite (1657 / 512)) (Finite (1719 / 512)) = Finite (- (31 / 256))"
    by (simp add: float_eval)
  have d2: "fmul (Finite (- (31 / 256))) (Finite (- (31 / 256))) = Finite (961 / 65536)"
    by (simp add: float_eval)
  have var2: "fmul (Finite (961 / 65536)) (Finite (- 1000)) = Finite (- (120125 / 8192))"
    by (simp add: float_eval)
  have s: "fadd (Finite (- (819485 / 32))) (Finite (- (120125 / 8192))) = Finite (- (3279817 / 128))"
    by (simp add: float_eval)
  show ?thesis
    by (simp only: temp_sum_def temp_var1_def temp_var2_def freezing_adc_t example_temp_coeffs
          example_temp_ints flit_exact a1 b1 c1 var1 a2 b2 c2 d2 var2 s)
qed

lemma zero_coeffs:
  "uint (dig_T1 (temp zero_calib)) = 0" "sint (dig_T2 (temp zero_calib)) = 0"
  "sint (dig_T3 (temp zero_calib)) = 0"
  "uint (dig_P1 (press zero_calib)) = 0" "sint (dig_P2 (press zero_calib)) = 0"
  "sint (dig_P3 (press zero_calib)) = 0" "sint (dig_P4 (press zero_calib)) = 0"
  "sint (dig_P5 (press zero_calib)) = 0" "sint (dig_P6 (press zero_calib)) = 0"
  "sint (dig_P7 (press zero_calib)) = 0" "sint (dig_P8 (press zero_calib)) = 0"
  "sint (dig_P9 (press zero_calib)) = 0"
  by (simp_all add: zero_calib_def)

lemma zero_adc:
  "sint (adc_t_of [0, 0, 0, 0, 0, 0, 0, 0]) = 0" "sint (adc_p_of [0, 0, 0, 0, 0, 0, 0, 0]) = 0"
  by (simp_all add: adc_t_of_def adc_p_of_def)

lemma float_of_int_0: "float_of_int 0 = Finite 0"
  by (simp add: float_of_int_def flit_def)

lemma zero_ops:
  "fdiv (Finite 0) (Finite 2) = Finite 0" "fdiv (Finite 0) (Finite 4) = Finite 0"
  "fdiv (Finite 0) (Finite 1024) = Finite 0" "fdiv (Finite 0) (Finite 4096) = Finite 0"
  "fdiv (Finite 0) (Finite 8192) = Finite 0" "fdiv (Finite 0) (Finite 16384) = Finite 0"
  "fdiv (Finite 0) (Finite 32768) = Finite 0" "fdiv (Finite 0) (Finite 131072) = Finite 0"
  "fdiv (Finite 0) (Finite 524288) = Finite 0"
  "fsub (Finite 0) (Finite 0) = Finite 0" "fadd (Finite 0) (Finite 0) = Finite 0"
  "fadd (Finite 0) NegZero = Finite 0" "fadd NegZero NegZero = NegZero"
  "fmul (Finite 0) (Finite 0) = Finite 0" "fmul (Finite 0) (Finite 65536) = Finite 0"
  "fmul (Finite 0) (Finite (- 64000)) = NegZero" "fmul (Finite (- 64000)) (Finite 0) = NegZero"
  "fmul NegZero (Finite (- 64000)) = Finite 0" "fmul NegZero (Finite 2) = NegZero"
  "fmul (Finite 4096000000) (Finite 0) = Finite 0" "fmul (Finite 1) (Finite 0) = Finite 0"
  "fdiv (Finite 6553600000) (Finite 0) = PosInf"
  "fmul (Finite 0) PosInf = NaN" "fmul PosInf (Finite 0) = NaN"
  "fmul NaN x = NaN" "fdiv NaN x = NaN" "fadd NaN x = NaN" "fadd x NaN = NaN"
  by (simp_all add: fdiv_def fmul_def fadd_def fsub_def signed_zero_def signed_inf_def)

lemma zero_roundings:
  "fsub (Finite 0) (Finite 64000) = Finite (- 64000)"
  "fmul (Finite (- 64000)) (Finite (- 64000)) = Finite 4096000000"
  "fadd (Finite 1) (Finite 0) = Finite 1"
  "fsub (Finite 1048576) (Finite 0) = Finite 1048576"
  "fmul (Finite 1048576) (Finite 6250) = Finite 6553600000"
  by (simp_all add: float_eval)

lemma zero_temp_sum: "temp_sum (temp zero_calib) (adc_t_of [0, 0, 0, 0, 0, 0, 0, 0]) = Finite 0"
  by (simp only: temp_sum_def temp_var1_def temp_var2_def zero_coeffs zero_adc float_of_int_0
        flit_exact zero_ops)

lemma zero_pressure_var1: "pressure_var1 (press zero_calib) 0 = Finite 0"
  by (simp only: pressure_var1_def Let_def zero_coeffs sint_0 float_of_int_0 flit_exact
        zero_ops zero_roundings)

lemma zero_pressure_var2: "pressure_var2 (press zero_calib) 0 = Finite 0"
  by (simp only: pressure_var2_def Let_def zero_coeffs sint_0 float_of_int_0 flit_exact
        zero_ops zero_roundings)

lemma zero_pressure: "pressure_of (press zero_calib) 0 (adc_p_of [0, 0, 0, 0, 0, 0, 0, 0]) = NaN"
  by (simp only: pressure_of_def Let_def zero_pressure_var1 zero_pressure_var2 zero_coeffs
        zero_adc float_of_int_0 flit_exact zero_ops zero_roundings)

lemma int32_of_float_0: "int32_of_float (Finite 0) = Some 0"
  by (simp add: int32_of_float_def trunc_zero_def)

section \<open>The lifecycle of a session\<close>

lemma refused_when_closed: "fd c < 0 \<Longrightarrow> refused_not_init w c d"
  by (simp add: refused_not_init_def bme280_read_calibration_def bme280_configure_def
        bme280_read_data_def)

text \<open>
  C6. With a descriptor that is not valid (\<open>fd < 0\<close>: never opened, or after an
  initialisation that failed at the open or at the address binding),
  \<open>bme280_read_calibration\<close>, \<open>bme280_configure\<close> and \<open>bme280_read_data\<close> return
  \<open>BME280_ERR_NOT_INIT\<close> and touch neither the context, the output nor the bus. After
  \<open>bme280_close\<close>, whatever the context was, the descriptor is not valid, so the same
  calls are refused again; a second \<open>bme280_close\<close>, or one on a session that is not
  open or on a null context, changes nothing. The calls are made with the pointers
  they need: the null check comes first, so that \<open>bme280_read_data\<close> with a null
  output answers \<open>BME280_ERR_NULL_PTR\<close> whatever the descriptor is (the last
  conjunct).
\<close>

theorem lifecycle_not_initialized:
  "(fd c < 0 \<longrightarrow> refused_not_init w c d) \<and>
   (\<forall>e c1 w1. bme280_init w (Some c) (Some path) addr = (e, Some c1, w1) \<and> e \<noteq> BME280_OK
        \<longrightarrow> refused_not_init w1 c1 d) \<and>
   (\<exists>c2 w2. bme280_close w (Some c) = (Some c2, w2) \<and> fd c2 < 0 \<and>
        refused_not_init w2 c2 d \<and> bme280_close w2 (Some c2) = (Some c2, w2)) \<and>
   (fd c < 0 \<longrightarrow> bme280_close w (Some c) = (Some c, w)) \<and>
   bme280_close w None = (None, w) \<and>
   bme280_read_data w (Some c) None = Some (BME280_ERR_NULL_PTR, Some c, None, w)"
proof (intro conjI allI impI)
  show "refused_not_init w c d" if "fd c < 0"
    using that by (rule refused_when_closed)
next
  fix e c1 w1
  assume a: "bme280_init w (Some c) (Some path) addr = (e, Some c1, w1) \<and> e \<noteq> BME280_OK"
  then have "\<exists>c'. Some c1 = Some c' \<and> fd c' < 0"
    by (intro init_failure_fd[of w c path addr e "Some c1" w1]) simp_all
  then have "fd c1 < 0" by simp
  then show "refused_not_init w1 c1 d" by (rule refused_when_closed)
next
  show "\<exists>c2 w2. bme280_close w (Some c) = (Some c2, w2) \<and> fd c2 < 0 \<and>
          refused_not_init w2 c2 d \<and> bme280_close w2 (Some c2) = (Some c2, w2)"
  proof (cases "fd c \<ge> 0")
    case True
    let ?c2 = "c\<lparr>fd := - 1\<rparr>" and ?w2 = "sys_close w (fd c)"
    have "bme280_close w (Some c) = (Some ?c2, ?w2)" using True by (simp add: bme280_close_def)
    moreover have "fd ?c2 < 0" by simp
    moreover from this have "refused_not_init ?w2 ?c2 d" by (rule refused_when_closed)
    moreover have "bme280_close ?w2 (Some ?c2) = (Some ?c2, ?w2)" by (simp add: bme280_close_def)
    ultimately show ?thesis by blast
  next
    case False
    then have neg: "fd c < 0" by simp
    then have "bme280_close w (Some c) = (Some c, w)" by (simp add: bme280_close_def)
    with neg refused_when_closed[OF neg] show ?thesis by blast
  qed
next
  show "bme280_close w (Some c) = (Some c, w)" if "fd c < 0"
    using that by (simp add: bme280_close_def)
next
  show "bme280_close w None = (None, w)" by (simp add: bme280_close_def)
next
  show "bme280_read_data w (Some c) None = Some (BME280_ERR_NULL_PTR, Some c, None, w)"
    by (simp add: bme280_read_data_def)
qed

theorem lifecycle_not_initialized_witness:
  "fd fresh_ctx < 0 \<and> refused_not_init unanswered_world fresh_ctx blank_data \<and>
   bme280_close unanswered_world (Some fresh_ctx) = (Some fresh_ctx, unanswered_world)"
proof -
  have neg: "fd fresh_ctx < 0" by (simp add: fresh_ctx_def)
  from lifecycle_not_initialized[of fresh_ctx unanswered_world blank_data "''/dev/i2c-1''" "0x76"]
  have "fd fresh_ctx < 0 \<longrightarrow> refused_not_init unanswered_world fresh_ctx blank_data"
    and "fd fresh_ctx < 0 \<longrightarrow>
           bme280_close unanswered_world (Some fresh_ctx) = (Some fresh_ctx, unanswered_world)"
    by blast+
  with neg show ?thesis by blast
qed

section \<open>The outputs of bme280\_read\_data\<close>

text \<open>
  C10. Every call of \<open>bme280_read_data\<close> returns, and whenever it returns an error
  (null pointer, not initialised, failed write or short read) the output structure is
  the one the caller passed: its four fields are written only on the path that returns
  \<open>BME280_OK\<close>.
\<close>

theorem read_data_error_leaves_output_unchanged:
  "\<exists>e ctx' data' w'.
     bme280_read_data w ctx data = Some (e, ctx', data', w') \<and>
     (e \<noteq> BME280_OK \<longrightarrow> data' = data)"
proof -
  obtain e ctx' data' w' where run: "bme280_read_data w ctx data = Some (e, ctx', data', w')"
    using read_data_defined by blast
  then have "e \<noteq> BME280_OK \<longrightarrow> data' = data"
    using read_data_error by blast
  with run show ?thesis by blast
qed

theorem read_data_error_leaves_output_unchanged_witness:
  "\<exists>ctx' w'. bme280_read_data stuck_world (Some example_ctx) (Some blank_data)
               = Some (BME280_ERR_WRITE, ctx', Some blank_data, w')"
proof -
  from read_data_error_leaves_output_unchanged[of stuck_world "Some example_ctx" "Some blank_data"]
  obtain e ctx' data' w' where
    run: "bme280_read_data stuck_world (Some example_ctx) (Some blank_data) = Some (e, ctx', data', w')"
    and keep: "e \<noteq> BME280_OK \<longrightarrow> data' = Some blank_data"
    by blast
  have "map_option fst (bme280_read_data stuck_world (Some example_ctx) (Some blank_data))
          = Some BME280_ERR_WRITE"
    by (simp add: bme280_read_data_def stuck_world_def example_ctx_def sys_write_def)
  with run have e: "e = BME280_ERR_WRITE" by simp
  with keep have "data' = Some blank_data" by simp
  with run e show ?thesis by blast
qed

lemma celsius_bounded: "bounded 12 (fdiv (temp_sum T (adc_t_of buf)) (flit 5120))"
proof -
  have "bounded 24 (temp_sum T (adc_t_of buf))"
    using adc_t_range[of buf] by (intro temp_sum_bounded) simp_all
  from fdiv_lit_bounded[OF this, of 5120 12] show ?thesis
    by (simp add: flit_exact pow2_def)
qed

lemma fahrenheit_bounded:
  "bounded 14 (fadd (fmul (fdiv (temp_sum T (adc_t_of buf)) (flit 5120)) (flit (9 / 5))) (flit 32))"
proof -
  have "bounded 1 (flit (9 / 5))"
    by (simp add: flit_1_8 bounded_def pow2_def)
  from fmul_bounded[OF celsius_bounded this]
  have m: "bounded 13 (fmul (fdiv (temp_sum T (adc_t_of buf)) (flit 5120)) (flit (9 / 5)))"
    by simp
  have "bounded 13 (flit 32)"
    by (simp add: flit_exact bounded_def pow2_def)
  from fadd_bounded[OF m this] show ?thesis by simp
qed

lemma fahrenheit_error:
  assumes c: "bounded 12 c"
  shows "\<bar>fval (fadd (fmul c (flit (9 / 5))) (flit 32)) - (fval c * (9 / 5) + 32)\<bar> \<le> 1 / 512"
proof -
  let ?k = "Finite (7549747 / 4194304)"
  have k: "bounded 1 ?k" by (simp add: bounded_def pow2_def)
  have t: "bounded 13 (Finite 32)" by (simp add: bounded_def pow2_def)
  have m: "bounded 13 (fmul c ?k)" using fmul_bounded[OF c k] by simp
  have e1: "\<bar>fval (fmul c ?k) - fval c * (7549747 / 4194304)\<bar> \<le> pow2 (- 11)"
    using fmul_error[OF c k] by simp
  have e2: "\<bar>fval (fadd (fmul c ?k) (Finite 32)) - (fval (fmul c ?k) + 32)\<bar> \<le> pow2 (- 10)"
    using fadd_error[OF m t] by simp
  have "\<bar>fval c\<bar> \<le> 4096" using c by (simp add: bounded_def pow2_def)
  then have e3: "\<bar>fval c * (7549747 / 4194304) - fval c * (9 / 5)\<bar> \<le> 1 / 5120"
  proof -
    assume b: "\<bar>fval c\<bar> \<le> 4096"
    have "fval c * (7549747 / 4194304) - fval c * (9 / 5) = fval c * (- 1 / 20971520)"
      by (simp add: algebra_simps)
    then have "\<bar>fval c * (7549747 / 4194304) - fval c * (9 / 5)\<bar> = \<bar>fval c\<bar> * (1 / 20971520)"
      by (simp add: abs_mult)
    also have "\<dots> \<le> 4096 * (1 / 20971520)" using b by (intro mult_right_mono) simp_all
    finally show ?thesis by simp
  qed
  have "\<bar>fval (fadd (fmul c ?k) (Finite 32)) - (fval c * (9 / 5) + 32)\<bar>
      \<le> pow2 (- 10) + pow2 (- 11) + 1 / 5120"
    using e1 e2 e3 by linarith
  also have "\<dots> \<le> 1 / 512" by (simp add: pow2_def)
  finally show ?thesis by (simp add: flit_1_8 flit_exact)
qed

text \<open>
  C8. After every successful \<open>bme280_read_data\<close> the Fahrenheit output is the Celsius
  output times \<open>1.8f\<close> plus \<open>32.0f\<close>, each of the two operations rounded to single
  precision: it is computed from the stored Celsius value and from nothing else. Both
  outputs are finite numbers, and the Fahrenheit output is within 1/512 of the exact
  value of \<open>celsius * 1.8 + 32\<close>.
\<close>

theorem fahrenheit_is_derived_from_celsius:
  assumes "bme280_read_data w ctx data = Some (BME280_OK, ctx', data', w')"
  shows "\<exists>d'. data' = Some d' \<and>
           temperature_f d' = fadd (fmul (temperature_c d') (flit (9 / 5))) (flit 32) \<and>
           is_finite (temperature_c d') \<and> is_finite (temperature_f d') \<and>
           \<bar>fval (temperature_f d') - (fval (temperature_c d') * (9 / 5) + 32)\<bar> \<le> 1 / 512"
  using assms
proof (rule read_data_ok)
  fix c d' buf
  assume d': "data' = Some d'"
    and tc: "temperature_c d' = fdiv (temp_sum (temp (calib c)) (adc_t_of buf)) (flit 5120)"
    and tf: "temperature_f d' = fadd (fmul (temperature_c d') (flit (9 / 5))) (flit 32)"
  have cb: "bounded 12 (temperature_c d')"
    unfolding tc by (rule celsius_bounded)
  from celsius_bounded[of "temp (calib c)" buf] fahrenheit_bounded[of "temp (calib c)" buf]
  have "is_finite (temperature_c d')" "is_finite (temperature_f d')"
    by (simp_all add: tf tc bounded_def)
  moreover from fahrenheit_error[OF cb]
  have "\<bar>fval (temperature_f d') - (fval (temperature_c d') * (9 / 5) + 32)\<bar> \<le> 1 / 512"
    by (simp only: tf)
  ultimately show ?thesis using d' tf by simp
qed

theorem fahrenheit_is_derived_from_celsius_witness:
  "\<exists>c' d' w'.
     bme280_read_data example_world (Some example_ctx) (Some blank_data)
       = Some (BME280_OK, c', Some d', w') \<and>
     temperature_f d' = fadd (fmul (temperature_c d') (flit (9 / 5))) (flit 32)"
proof -
  have "length [0x65, 0x5A, 0xC0, 0x7E, 0xED, 0x00, 0x80, 0x00 :: uint8_t] = 8" by simp
  moreover have "fd example_ctx = 3" by (simp add: example_ctx_def)
  ultimately obtain c' data' w' where
    run: "bme280_read_data example_world (Some example_ctx) (Some blank_data)
            = Some (BME280_OK, c', data', w')"
    unfolding example_world_def using burst_run by blast
  from fahrenheit_is_derived_from_celsius[OF run] run show ?thesis by blast
qed

lemma t_fine_bounded:
  assumes "int32_of_float (temp_sum T (adc_t_of buf)) = Some tf"
  shows "sint tf = trunc_zero (fval (temp_sum T (adc_t_of buf))) \<and> \<bar>sint tf\<bar> \<le> 2 ^ 24"
  using temp_sum_cast[of T buf] assms by auto

text \<open>
  C5. After every successful \<open>bme280_read_data\<close> the humidity output lies in
  [0, 100]. The raw result is that of the humidity formula on the coefficients of the
  context, on the fine temperature the call has stored and on the bytes the call has
  read from the bus; it is always a finite number (never an infinity or a NaN). Below 0
  the stored humidity is exactly 0, above 100 it is exactly 100, and otherwise it is
  the raw result as it is. The Celsius and pressure outputs are the results of their
  formulas on the same bytes, unclamped.
\<close>

theorem humidity_is_clamped:
  assumes "bme280_read_data w ctx data = Some (BME280_OK, ctx', data', w')"
  shows "\<exists>c c' d'.
           ctx = Some c \<and> ctx' = Some c' \<and> data' = Some d' \<and>
           int32_of_float (temp_sum (temp (calib c)) (adc_t_of (burst_read w c)))
             = Some (t_fine c') \<and>
           (let raw = humidity_formula (hum (calib c)) (t_fine c') (adc_h_of (burst_read w c))
            in is_finite raw \<and>
               humidity_rh d' =
                 (if 100 < fval raw then Finite 100
                  else if fval raw < 0 then Finite 0
                  else raw)) \<and>
           is_finite (humidity_rh d') \<and> 0 \<le> fval (humidity_rh d') \<and> fval (humidity_rh d') \<le> 100 \<and>
           temperature_c d' =
             fdiv (temp_sum (temp (calib c)) (adc_t_of (burst_read w c))) (flit 5120) \<and>
           pressure_hpa d' =
             pressure_of (press (calib c)) (t_fine c') (adc_p_of (burst_read w c))"
  using assms
proof (rule read_data_ok)
  fix c c' d' w1 buf
  assume ctx: "ctx = Some c" "ctx' = Some c'" "data' = Some d'"
    and wr: "sys_write w (fd c) [BME280_REG_DATA] = (1, w1)"
    and rd: "sys_read w1 (fd c) 8 = (8, buf, w')"
    and tf: "int32_of_float (temp_sum (temp (calib c)) (adc_t_of buf)) = Some (t_fine c')"
    and tc: "temperature_c d' = fdiv (temp_sum (temp (calib c)) (adc_t_of buf)) (flit 5120)"
    and pr: "pressure_hpa d' = pressure_of (press (calib c)) (t_fine c') (adc_p_of buf)"
    and hu: "humidity_rh d' =
               clamp_humidity (humidity_formula (hum (calib c)) (t_fine c') (adc_h_of buf))"
  have buf: "burst_read w c = buf" using wr rd by (rule burst_read_eq)
  define raw where "raw = humidity_formula (hum (calib c)) (t_fine c') (adc_h_of buf)"
  from t_fine_bounded[OF tf] have "\<bar>sint (t_fine c')\<bar> \<le> 2 ^ 24" by (rule conjunct2)
  then have "bounded 74 raw"
    unfolding raw_def using adc_h_range[of buf] by (intro humidity_formula_bounded) simp_all
  then have fin: "is_finite raw" by (simp add: bounded_def)
  from hu have h: "humidity_rh d' = clamp_humidity raw" by (simp add: raw_def)
  from fin have cl: "clamp_humidity raw =
      (if 100 < fval raw then Finite 100 else if fval raw < 0 then Finite 0 else raw)"
    by (rule clamp_humidity_cases)
  from fin have rg: "is_finite (clamp_humidity raw) \<and> 0 \<le> fval (clamp_humidity raw) \<and>
      fval (clamp_humidity raw) \<le> 100"
    by (rule clamp_humidity_range)
  have "let raw = humidity_formula (hum (calib c)) (t_fine c') (adc_h_of (burst_read w c))
        in is_finite raw \<and>
           humidity_rh d' =
             (if 100 < fval raw then Finite 100 else if fval raw < 0 then Finite 0 else raw)"
    unfolding Let_def buf raw_def[symmetric] using fin h cl by simp
  moreover have "is_finite (humidity_rh d') \<and> 0 \<le> fval (humidity_rh d') \<and>
      fval (humidity_rh d') \<le> 100"
    using rg h by simp
  ultimately show ?thesis
    using ctx tf tc pr buf by blast
qed

theorem humidity_is_clamped_witness:
  "burst_read example_world example_ctx = [0x65, 0x5A, 0xC0, 0x7E, 0xED, 0x00, 0x80, 0x00] \<and>
   (\<exists>c' d' w'.
     bme280_read_data example_world (Some example_ctx) (Some blank_data)
       = Some (BME280_OK, Some c', Some d', w') \<and>
     (let raw = humidity_formula (hum example_calib) (t_fine c')
                  (adc_h_of [0x65, 0x5A, 0xC0, 0x7E, 0xED, 0x00, 0x80, 0x00])
      in is_finite raw \<and>
         humidity_rh d' =
           (if 100 < fval raw then Finite 100 else if fval raw < 0 then Finite 0 else raw)) \<and>
     is_finite (humidity_rh d') \<and> 0 \<le> fval (humidity_rh d') \<and> fval (humidity_rh d') \<le> 100)"
proof -
  let ?bytes = "[0x65, 0x5A, 0xC0, 0x7E, 0xED, 0x00, 0x80, 0x00] :: uint8_t list"
  have len: "length ?bytes = 8" by simp
  have fd3: "fd example_ctx = 3" by (simp add: example_ctx_def)
  have cal: "calib example_ctx = example_calib" by (simp add: example_ctx_def)
  have br: "burst_read example_world example_ctx = ?bytes"
    unfolding example_world_def using len fd3 by (rule burst_read_burst_world)
  from len fd3 obtain c' data' w' where
    run: "bme280_read_data example_world (Some example_ctx) (Some blank_data)
            = Some (BME280_OK, c', data', w')"
    unfolding example_world_def using burst_run by blast
  from humidity_is_clamped[OF run] obtain c1 d1 where
    e: "c' = Some c1" "data' = Some d1"
    and h: "let raw = humidity_formula (hum (calib example_ctx)) (t_fine c1)
                        (adc_h_of (burst_read example_world example_ctx))
            in is_finite raw \<and>
               humidity_rh d1 =
                 (if 100 < fval raw then Finite 100 else if fval raw < 0 then Finite 0 else raw)"
    and rg: "is_finite (humidity_rh d1)" "0 \<le> fval (humidity_rh d1)" "fval (humidity_rh d1) \<le> 100"
    by blast
  from h have h': "let raw = humidity_formula (hum example_calib) (t_fine c1) (adc_h_of ?bytes)
            in is_finite raw \<and>
               humidity_rh d1 =
                 (if 100 < fval raw then Finite 100 else if fval raw < 0 then Finite 0 else raw)"
    by (simp only: br cal)
  from run e have "bme280_read_data example_world (Some example_ctx) (Some blank_data)
                     = Some (BME280_OK, Some c1, Some d1, w')"
    by simp
  with br h' rg show ?thesis by blast
qed

text \<open>
  C4, as amended. After every successful \<open>bme280_read_data\<close> the fine temperature
  stored in the context is the sum \<open>var1 + var2\<close>, computed from the coefficients of
  the context and the bytes the call has read from the bus, with its fractional part
  discarded (the C cast to \<open>int32_t\<close>, which truncates towards zero): the floor of
  the sum where the sum is not negative, its ceiling where it is negative. The sum is
  always finite and within the range of \<open>int32_t\<close>, so the cast is defined.
\<close>

theorem t_fine_is_truncated_sum:
  assumes "bme280_read_data w ctx data = Some (BME280_OK, ctx', data', w')"
  shows "\<exists>c c'.
           ctx = Some c \<and> ctx' = Some c' \<and>
           is_finite (temp_sum (temp (calib c)) (adc_t_of (burst_read w c))) \<and>
           (let s = fval (temp_sum (temp (calib c)) (adc_t_of (burst_read w c)))
            in sint (t_fine c') = (if 0 \<le> s then \<lfloor>s\<rfloor> else \<lceil>s\<rceil>))"
  using assms
proof (rule read_data_ok)
  fix c c' w1 buf
  assume ctx: "ctx = Some c" "ctx' = Some c'"
    and wr: "sys_write w (fd c) [BME280_REG_DATA] = (1, w1)"
    and rd: "sys_read w1 (fd c) 8 = (8, buf, w')"
    and tf: "int32_of_float (temp_sum (temp (calib c)) (adc_t_of buf)) = Some (t_fine c')"
  have buf: "burst_read w c = buf" using wr rd by (rule burst_read_eq)
  have "bounded 24 (temp_sum (temp (calib c)) (adc_t_of buf))"
    using adc_t_range[of buf] by (intro temp_sum_bounded) simp_all
  then have fin: "is_finite (temp_sum (temp (calib c)) (adc_t_of buf))" by (simp add: bounded_def)
  from t_fine_bounded[OF tf]
  have "sint (t_fine c') = trunc_zero (fval (temp_sum (temp (calib c)) (adc_t_of buf)))"
    by (rule conjunct1)
  with fin ctx show ?thesis by (simp add: buf trunc_zero_def Let_def)
qed

theorem t_fine_is_truncated_sum_witness:
  "burst_read example_world example_ctx = [0x65, 0x5A, 0xC0, 0x7E, 0xED, 0x00, 0x80, 0x00] \<and>
   fval (temp_sum (temp (calib example_ctx))
           (adc_t_of [0x65, 0x5A, 0xC0, 0x7E, 0xED, 0x00, 0x80, 0x00])) = 16438053 / 128 \<and>
   (\<exists>c' d' w'.
     bme280_read_data example_world (Some example_ctx) (Some blank_data)
       = Some (BME280_OK, Some c', d', w') \<and>
     sint (t_fine c') = 128422)"
proof -
  let ?bytes = "[0x65, 0x5A, 0xC0, 0x7E, 0xED, 0x00, 0x80, 0x00] :: uint8_t list"
  have len: "length ?bytes = 8" by simp
  have fd3: "fd example_ctx = 3" by (simp add: example_ctx_def)
  have cal: "calib example_ctx = example_calib" by (simp add: example_ctx_def)
  have br: "burst_read example_world example_ctx = ?bytes"
    unfolding example_world_def using len fd3 by (rule burst_read_burst_world)
  from len fd3 obtain c' data' w' where
    run: "bme280_read_data example_world (Some example_ctx) (Some blank_data)
            = Some (BME280_OK, c', data', w')"
    unfolding example_world_def using burst_run by blast
  from t_fine_is_truncated_sum[OF run] obtain c1 where
    c': "c' = Some c1"
    and tf: "let s = fval (temp_sum (temp (calib example_ctx))
                            (adc_t_of (burst_read example_world example_ctx)))
             in sint (t_fine c1) = (if 0 \<le> s then \<lfloor>s\<rfloor> else \<lceil>s\<rceil>)"
    by auto
  from tf have "sint (t_fine c1) = 128422"
    by (simp add: br cal example_temp_sum Let_def)
  with run c' br show ?thesis
    by (auto simp add: cal example_temp_sum)
qed

section \<open>bme280\_read\_data on the sample inputs\<close>

lemma example_t_fine: "int32_of_float (Finite (16438053 / 128)) = Some 128422"
  by (simp add: int32_of_float_def trunc_zero_def)

lemma freezing_t_fine: "int32_of_float (Finite (- (3279817 / 128))) = Some (- 25623)"
  by (simp add: int32_of_float_def trunc_zero_def)

text \<open>
  C9. With T1 = 27504, T2 = 26435, T3 = -1000 and the raw temperature 519888 the call
  succeeds, the sum \<open>var1 + var2\<close> is 128422.2890625, the fine temperature stored is
  128422 and the Celsius output is 25.0824775..., within 0.01 of 25.08.
\<close>

theorem end_to_end_temperature:
  "\<exists>c' d' w'.
     bme280_read_data example_world (Some example_ctx) (Some blank_data)
       = Some (BME280_OK, Some c', Some d', w') \<and>
     fval (temp_sum (temp (calib example_ctx)) (adc_t_of [0x65, 0x5A, 0xC0, 0x7E, 0xED, 0x00, 0x80, 0x00]))
       = 16438053 / 128 \<and>
     sint (t_fine c') = 128422 \<and>
     temperature_c d' = Finite (6575221 / 262144) \<and>
     \<bar>6575221 / 262144 - 2508 / 100 :: rat\<bar> \<le> 1 / 100"
proof -
  let ?bytes = "[0x65, 0x5A, 0xC0, 0x7E, 0xED, 0x00, 0x80, 0x00] :: uint8_t list"
  have cal: "calib example_ctx = example_calib" by (simp add: example_ctx_def)
  have "length ?bytes = 8" by simp
  moreover have "fd example_ctx = 3" by (simp add: example_ctx_def)
  ultimately obtain tf w' where
    tf: "int32_of_float (temp_sum (temp (calib example_ctx)) (adc_t_of ?bytes)) = Some tf"
    and run: "bme280_read_data (burst_world ?bytes) (Some example_ctx) (Some blank_data) =
             Some (BME280_OK, Some (example_ctx\<lparr>t_fine := tf\<rparr>),
                   Some (blank_data\<lparr>temperature_c :=
                             fdiv (temp_sum (temp (calib example_ctx)) (adc_t_of ?bytes)) (flit 5120),
                           temperature_f :=
                             fadd (fmul (fdiv (temp_sum (temp (calib example_ctx)) (adc_t_of ?bytes))
                                              (flit 5120))
                                        (flit (9 / 5)))
                                  (flit 32),
                           pressure_hpa := pressure_of (press (calib example_ctx)) tf (adc_p_of ?bytes),
                           humidity_rh :=
                             clamp_humidity
                               (humidity_formula (hum (calib example_ctx)) tf (adc_h_of ?bytes))\<rparr>),
                   w')"
    using burst_run[of ?bytes example_ctx blank_data] by blast
  from tf have "tf = 128422" by (simp add: cal example_temp_sum example_t_fine)
  then have "sint tf = 128422" by simp
  with run show ?thesis
    by (simp add: example_world_def cal example_temp_sum example_celsius)
qed

text \<open>
  C4, as claimed (the fine temperature is the floor of \<open>var1 + var2\<close>, also when the
  sum is negative and not an integer), fails below the freezing point: with the same
  coefficients and the raw temperature 424192 the sum is -25623.5703125, its floor is
  -25624, and the fine temperature stored is -25623.
\<close>

theorem t_fine_is_not_the_floor_below_zero:
  "\<exists>c' d' w'.
     bme280_read_data freezing_world (Some example_ctx) (Some blank_data)
       = Some (BME280_OK, Some c', d', w') \<and>
     fval (temp_sum (temp (calib example_ctx)) (adc_t_of [0x65, 0x5A, 0xC0, 0x67, 0x90, 0x00, 0x80, 0x00]))
       = - (3279817 / 128) \<and>
     sint (t_fine c') = - 25623 \<and>
     \<lfloor>- (3279817 / 128) :: rat\<rfloor> = - 25624"
proof -
  let ?bytes = "[0x65, 0x5A, 0xC0, 0x67, 0x90, 0x00, 0x80, 0x00] :: uint8_t list"
  have cal: "calib example_ctx = example_calib" by (simp add: example_ctx_def)
  have "length ?bytes = 8" by simp
  moreover have "fd example_ctx = 3" by (simp add: example_ctx_def)
  ultimately obtain tf d' w' where
    tf: "int32_of_float (temp_sum (temp (calib example_ctx)) (adc_t_of ?bytes)) = Some tf"
    and run: "bme280_read_data (burst_world ?bytes) (Some example_ctx) (Some blank_data) =
             Some (BME280_OK, Some (example_ctx\<lparr>t_fine := tf\<rparr>), d', w')"
    using burst_run[of ?bytes example_ctx blank_data] by blast
  from tf have "tf = - 25623" by (simp add: cal freezing_temp_sum freezing_t_fine)
  then have "sint tf = - 25623" by simp
  with run show ?thesis
    by (simp add: freezing_world_def cal freezing_temp_sum)
qed

text \<open>
  C3. Claimed: when the divisor \<open>var1\<close> of the pressure formula is 0,
  \<open>bme280_read_data\<close> does not hand the result of the division on as a pressure
  reading. The source divides without a guard: with the coefficients all zero (P1 = 0)
  the divisor is 0, the quotient is an infinity, and the call returns \<open>BME280_OK\<close>
  with a NaN as the pressure.
\<close>

theorem pressure_division_by_zero_is_returned:
  "\<exists>c' d' w'.
     bme280_read_data zero_world (Some zero_ctx) (Some blank_data)
       = Some (BME280_OK, Some c', Some d', w') \<and>
     pressure_var1 (press (calib zero_ctx)) (t_fine c') = Finite 0 \<and>
     pressure_hpa d' = NaN"
proof -
  let ?bytes = "[0, 0, 0, 0, 0, 0, 0, 0] :: uint8_t list"
  have cal: "calib zero_ctx = zero_calib" by (simp add: zero_ctx_def)
  have "length ?bytes = 8" by simp
  moreover have "fd zero_ctx = 3" by (simp add: zero_ctx_def)
  ultimately obtain tf w' where
    tf: "int32_of_float (temp_sum (temp (calib zero_ctx)) (adc_t_of ?bytes)) = Some tf"
    and run: "bme280_read_data (burst_world ?bytes) (Some zero_ctx) (Some blank_data) =
             Some (BME280_OK, Some (zero_ctx\<lparr>t_fine := tf\<rparr>),
                   Some (blank_data\<lparr>temperature_c :=
                             fdiv (temp_sum (temp (calib zero_ctx)) (adc_t_of ?bytes)) (flit 5120),
                           temperature_f :=
                             fadd (fmul (fdiv (temp_sum (temp (calib zero_ctx)) (adc_t_of ?bytes))
                                              (flit 5120))
                                        (flit (9 / 5)))
                                  (flit 32),
                           pressure_hpa := pressure_of (press (calib zero_ctx)) tf (adc_p_of ?bytes),
                           humidity_rh :=
                             clamp_humidity
                               (humidity_formula (hum (calib zero_ctx)) tf (adc_h_of ?bytes))\<rparr>),
                   w')"
    using burst_run[of ?bytes zero_ctx blank_data] by blast
  from tf have "tf = 0" by (simp add: cal zero_temp_sum int32_of_float_0)
  with run show ?thesis
    by (simp add: zero_world_def cal zero_pressure_var1 zero_pressure)
qed

lemma fmul_by_zero: "is_zero (fmul a (Finite 0)) \<or> is_nan (fmul a (Finite 0))"
  by (cases a) (simp_all add: fmul_def signed_zero_def)

lemma fdiv_by_zero: "is_zero b \<or> is_nan b \<Longrightarrow> \<not> is_finite (fdiv a b)"
  by (cases a; cases b) (auto simp add: fdiv_def signed_inf_def)

lemma fadd_not_finite: "\<not> is_finite a \<Longrightarrow> \<not> is_finite (fadd a b)"
  by (cases a; cases b) (auto simp add: fadd_def)

lemma fdiv_not_finite: "\<not> is_finite a \<Longrightarrow> \<not> is_finite (fdiv a b)"
  by (cases a; cases b) (auto simp add: fdiv_def signed_inf_def)

lemma pressure_var1_P1_zero:
  assumes "dig_P1 P = 0"
  shows "is_zero (pressure_var1 P tf) \<or> is_nan (pressure_var1 P tf)"
  using assms by (simp add: pressure_var1_def Let_def float_of_int_0 fmul_by_zero)

lemma pressure_not_finite:
  assumes "dig_P1 P = 0"
  shows "\<not> is_finite (pressure_of P tf adc_p)"
  unfolding pressure_of_def Let_def
  by (intro fdiv_not_finite fadd_not_finite fdiv_by_zero pressure_var1_P1_zero assms)

text \<open>
  The same for every sample and every context whose P1 is 0: a successful call stores
  an infinity or a NaN as the pressure.
\<close>

theorem pressure_is_never_finite_when_P1_is_zero:
  assumes "bme280_read_data w (Some c) data = Some (BME280_OK, ctx', data', w')"
    and "dig_P1 (press (calib c)) = 0"
  shows "\<exists>d'. data' = Some d' \<and> \<not> is_finite (pressure_hpa d')"
  using assms(1)
proof (rule read_data_ok)
  fix c0 c' d' buf
  assume "Some c = Some c0" and d': "data' = Some d'"
    and pr: "pressure_hpa d' = pressure_of (press (calib c0)) (t_fine c') (adc_p_of buf)"
  then have "c0 = c" by simp
  with pr assms(2) pressure_not_finite have "\<not> is_finite (pressure_hpa d')" by simp
  with d' show ?thesis by simp
qed

theorem pressure_is_never_finite_when_P1_is_zero_witness:
  "\<exists>c' d' w'.
     bme280_read_data zero_world (Some zero_ctx) (Some blank_data)
       = Some (BME280_OK, c', Some d', w') \<and>
     dig_P1 (press (calib zero_ctx)) = 0 \<and> \<not> is_finite (pressure_hpa d')"
proof -
  have p1: "dig_P1 (press (calib zero_ctx)) = 0" by (simp add: zero_ctx_def zero_calib_def)
  have "length [0, 0, 0, 0, 0, 0, 0, 0 :: uint8_t] = 8" by simp
  moreover have "fd zero_ctx = 3" by (simp add: zero_ctx_def)
  ultimately obtain c' data' w' where
    run: "bme280_read_data zero_world (Some zero_ctx) (Some blank_data)
            = Some (BME280_OK, c', data', w')"
    unfolding zero_world_def using burst_run by blast
  from pressure_is_never_finite_when_P1_is_zero[OF run p1] run p1 show ?thesis by blast
qed

end
